theory Spec2Isabelle
  imports Complex_Main "HOL-Library.Word" "HOL-Library.Signed_Division" "HOL-Library.Multiset"
begin

section \<open>Element types\<close>

text \<open>
  \<^verbatim>\<open>Vector<T>\<close> and \<^verbatim>\<open>Point<T>\<close> are templates over a numeric element type \<open>T\<close>.
  The operations below are polymorphic in \<open>'a\<close> and use the element type's own
  \<open>+\<close>, \<open>-\<close>, \<open>*\<close>, \<open>/\<close>, \<open>\<le>\<close>, \<open><\<close> and zero through the type classes of HOL.
  Three element types are provided:
  \<^item> \<^verbatim>\<open>unsigned\<close>: \<open>32 word\<close>. Arithmetic wraps modulo \<open>2 ^ 32\<close>, \<open>div\<close> and the
    order are the unsigned ones, exactly as C++ defines them.
  \<^item> \<^verbatim>\<open>int\<close>: the type \<open>cint\<close>, 32-bit signed integers. An operation whose result
    is outside \<open>-2\<^sup>3\<^sup>1 \<dots> 2\<^sup>3\<^sup>1 - 1\<close> has undefined behaviour; its outcome is
    \<open>Undefined\<close>, and so is the outcome of everything computed from it.
  \<^item> \<^verbatim>\<open>double\<close>: the type \<open>double\<close>, IEEE 754 binary64 with rounding to nearest,
    ties to even, with overflow to an infinity, gradual underflow and NaN.
  In every operation both operands have the same element type, so
  \<^verbatim>\<open>std::common_type_t<L, R>\<close> is that type.
\<close>

type_synonym unsigned = "32 word"

subsection \<open>\<^verbatim>\<open>int\<close>\<close>

datatype cint = CInt (int_of: int) | Undefined

definition int_range :: "int \<Rightarrow> bool" where
  "int_range i \<longleftrightarrow> - 2147483648 \<le> i \<and> i \<le> 2147483647"

text \<open>The outcome of an operation whose mathematical result is \<open>i\<close>.\<close>

definition to_int :: "int \<Rightarrow> cint" where
  "to_int i = (if int_range i then CInt i else Undefined)"

text \<open>
  Division truncates towards zero; dividing by zero and dividing the least integer
  by \<open>-1\<close> are undefined. The order places \<open>Undefined\<close> above every integer, so
  that it is total; nothing below compares an undefined value.
\<close>

instantiation cint :: "{zero, plus, minus, times, divide, linorder}"
begin

definition zero_cint :: cint where
  "zero_cint = CInt 0"

fun plus_cint :: "cint \<Rightarrow> cint \<Rightarrow> cint" where
  "plus_cint (CInt a) (CInt b) = to_int (a + b)"
| "plus_cint _ _ = Undefined"

fun minus_cint :: "cint \<Rightarrow> cint \<Rightarrow> cint" where
  "minus_cint (CInt a) (CInt b) = to_int (a - b)"
| "minus_cint _ _ = Undefined"

fun times_cint :: "cint \<Rightarrow> cint \<Rightarrow> cint" where
  "times_cint (CInt a) (CInt b) = to_int (a * b)"
| "times_cint _ _ = Undefined"

fun divide_cint :: "cint \<Rightarrow> cint \<Rightarrow> cint" where
  "divide_cint (CInt a) (CInt b) = (if b = 0 then Undefined else to_int (a sdiv b))"
| "divide_cint _ _ = Undefined"

fun less_eq_cint :: "cint \<Rightarrow> cint \<Rightarrow> bool" where
  "less_eq_cint (CInt a) (CInt b) = (a \<le> b)"
| "less_eq_cint _ Undefined = True"
| "less_eq_cint Undefined (CInt b) = False"

definition less_cint :: "cint \<Rightarrow> cint \<Rightarrow> bool" where
  "less_cint a b = (a \<le> b \<and> \<not> b \<le> (a :: cint))"

instance
proof
  fix a b c :: cint
  show "(a < b) = (a \<le> b \<and> \<not> b \<le> a)"
    by (simp add: less_cint_def)
  show "a \<le> a"
    by (cases a) simp_all
  show "a \<le> b \<Longrightarrow> b \<le> c \<Longrightarrow> a \<le> c"
    by (cases a; cases b; cases c) simp_all
  show "a \<le> b \<Longrightarrow> b \<le> a \<Longrightarrow> a = b"
    by (cases a; cases b) simp_all
  show "a \<le> b \<or> b \<le> a"
    by (cases a; cases b) auto
qed

end

text \<open>
  The values of type \<^verbatim>\<open>int\<close>. That the result of an operation is one says that
  the operation did not overflow.
\<close>

definition is_int :: "cint \<Rightarrow> bool" where
  "is_int c = (case c of CInt i \<Rightarrow> int_range i | Undefined \<Rightarrow> False)"

subsection \<open>\<^verbatim>\<open>double\<close>\<close>

text \<open>
  A \<^verbatim>\<open>double\<close> is a finite number, an infinity or NaN. Every operation on finite
  numbers returns \<open>fl\<close> of the exact result: the nearest number with a 53-bit
  significand and an exponent of at least \<open>-1022\<close> (ties to the even significand),
  or an infinity when that number reaches \<open>2 ^ 1024\<close>. A literal is \<open>fl\<close> of the
  decimal written. Two things are not modelled: the sign of zero, which only a
  division by zero can observe, and that \<^verbatim>\<open>==\<close> is false on a NaN; no statement
  below is about either.
\<close>

datatype double = Finite (val: real) | PInf | MInf | NaN

definition pow2 :: "int \<Rightarrow> real" where
  "pow2 k = 2 powr real_of_int k"

definition round_ties_even :: "real \<Rightarrow> int" where
  "round_ties_even r =
     (let n = \<lfloor>r\<rfloor>; d = r - of_int n
      in if d < 1 / 2 then n else if 1 / 2 < d then n + 1 else if even n then n else n + 1)"

definition fl :: "real \<Rightarrow> double" where
  "fl r =
     (if r = 0 then Finite 0
      else let e = max \<lfloor>log 2 \<bar>r\<bar>\<rfloor> (- 1022) - 52;
               s = of_int (round_ties_even (r / pow2 e)) * pow2 e
           in if 2 ^ 1024 \<le> s then PInf else if s \<le> - (2 ^ 1024) then MInf else Finite s)"

text \<open>The arguments that \<open>fl\<close> rounds without overflow or underflow.\<close>

definition normal_range :: "real \<Rightarrow> bool" where
  "normal_range r \<longleftrightarrow> r = 0 \<or> (pow2 (- 1022) \<le> \<bar>r\<bar> \<and> \<bar>r\<bar> < pow2 1023)"


text \<open>
  The unit roundoff of the format, and the numbers that differ by at most \<open>k\<close> roundings:
  \<open>near k r s\<close> says that each of \<open>r\<close> and \<open>s\<close> is at least \<open>(1 - 2\<^sup>-\<^sup>5\<^sup>3)\<^sup>k\<close> times the
  other.
\<close>

definition unit_roundoff :: real where
  "unit_roundoff = pow2 (- 53)"

definition near :: "nat \<Rightarrow> real \<Rightarrow> real \<Rightarrow> bool" where
  "near k r s \<longleftrightarrow> s * (1 - unit_roundoff) ^ k \<le> r \<and> r * (1 - unit_roundoff) ^ k \<le> s"

text \<open>Zero and the numbers of magnitude between \<open>2\<^sup>-\<^sup>k\<close> and \<open>2\<^sup>k\<close>.\<close>

definition magnitude_within :: "int \<Rightarrow> real \<Rightarrow> bool" where
  "magnitude_within k r \<longleftrightarrow> r = 0 \<or> (pow2 (- k) \<le> \<bar>r\<bar> \<and> \<bar>r\<bar> \<le> pow2 k)"

definition inf_of_sign :: "real \<Rightarrow> double" where
  "inf_of_sign s = (if 0 \<le> s then PInf else MInf)"

instantiation double :: "{zero, plus, minus, times, divide}"
begin

definition zero_double :: double where
  "zero_double = Finite 0"

fun plus_double :: "double \<Rightarrow> double \<Rightarrow> double" where
  "plus_double (Finite a) (Finite b) = fl (a + b)"
| "plus_double NaN _ = NaN"
| "plus_double _ NaN = NaN"
| "plus_double PInf MInf = NaN"
| "plus_double MInf PInf = NaN"
| "plus_double PInf _ = PInf"
| "plus_double _ PInf = PInf"
| "plus_double MInf _ = MInf"
| "plus_double _ MInf = MInf"

fun minus_double :: "double \<Rightarrow> double \<Rightarrow> double" where
  "minus_double (Finite a) (Finite b) = fl (a - b)"
| "minus_double NaN _ = NaN"
| "minus_double _ NaN = NaN"
| "minus_double PInf PInf = NaN"
| "minus_double MInf MInf = NaN"
| "minus_double PInf _ = PInf"
| "minus_double _ PInf = MInf"
| "minus_double MInf _ = MInf"
| "minus_double _ MInf = PInf"

fun times_double :: "double \<Rightarrow> double \<Rightarrow> double" where
  "times_double (Finite a) (Finite b) = fl (a * b)"
| "times_double NaN _ = NaN"
| "times_double _ NaN = NaN"
| "times_double PInf (Finite b) = (if b = 0 then NaN else inf_of_sign b)"
| "times_double MInf (Finite b) = (if b = 0 then NaN else inf_of_sign (- b))"
| "times_double (Finite a) PInf = (if a = 0 then NaN else inf_of_sign a)"
| "times_double (Finite a) MInf = (if a = 0 then NaN else inf_of_sign (- a))"
| "times_double PInf PInf = PInf"
| "times_double MInf MInf = PInf"
| "times_double PInf MInf = MInf"
| "times_double MInf PInf = MInf"

fun divide_double :: "double \<Rightarrow> double \<Rightarrow> double" where
  "divide_double (Finite a) (Finite b) =
     (if b = 0 then (if a = 0 then NaN else inf_of_sign a) else fl (a / b))"
| "divide_double NaN _ = NaN"
| "divide_double _ NaN = NaN"
| "divide_double (Finite a) PInf = Finite 0"
| "divide_double (Finite a) MInf = Finite 0"
| "divide_double PInf (Finite b) = (if 0 \<le> b then PInf else MInf)"
| "divide_double MInf (Finite b) = (if 0 \<le> b then MInf else PInf)"
| "divide_double PInf PInf = NaN"
| "divide_double PInf MInf = NaN"
| "divide_double MInf PInf = NaN"
| "divide_double MInf MInf = NaN"

instance ..

end

subsection \<open>\<^verbatim>\<open>std::sqrt\<close> and the conversion of its result to \<open>T\<close>\<close>

text \<open>
  \<^verbatim>\<open>length\<close> returns \<^verbatim>\<open>std::sqrt(...)\<close> as a \<open>T\<close>. For an integral \<open>T\<close> the argument
  is converted to \<^verbatim>\<open>double\<close>, the root is taken there, and the conversion of the
  result back to \<open>T\<close> discards the fractional part. An argument below \<open>2 ^ 32\<close> is
  converted exactly, and the rounded root of a \<^verbatim>\<open>double\<close> has the integer part of
  the real root, so the result is the integer square root (\<open>sqrt_unsigned_via_double\<close>
  and \<open>sqrt_int_via_double\<close> below). \<open>isqrt\<close> computes it by counting up;
  \<open>isqrt_floor_sqrt\<close> relates it to the real square root.
\<close>

primrec isqrt :: "nat \<Rightarrow> nat" where
  "isqrt 0 = 0"
| "isqrt (Suc n) = (let r = isqrt n in if Suc r * Suc r \<le> Suc n then Suc r else r)"

definition sqrt_unsigned :: "unsigned \<Rightarrow> unsigned" where
  "sqrt_unsigned s = of_nat (isqrt (unat s))"

text \<open>
  The root of a negative \<^verbatim>\<open>int\<close> is a NaN, whose conversion to \<^verbatim>\<open>int\<close> is undefined.
\<close>

fun sqrt_int :: "cint \<Rightarrow> cint" where
  "sqrt_int (CInt i) = (if i < 0 then Undefined else CInt (int (isqrt (nat i))))"
| "sqrt_int Undefined = Undefined"

fun sqrt_double :: "double \<Rightarrow> double" where
  "sqrt_double (Finite a) = (if a < 0 then NaN else fl (sqrt a))"
| "sqrt_double PInf = PInf"
| "sqrt_double MInf = NaN"
| "sqrt_double NaN = NaN"

section \<open>Vector\<close>

record 'a Vector =
  x :: 'a
  y :: 'a

text \<open>\<^verbatim>\<open>Vector()\<close> value-initialises both members.\<close>

definition Vector_default :: "'a::zero Vector" where
  "Vector_default = \<lparr>Vector.x = 0, Vector.y = 0\<rparr>"

text \<open>
  The two run-time failures: the \<^verbatim>\<open>assert(idx < 2)\<close> of the subscript operators,
  and a division by zero in \<^verbatim>\<open>operator/\<close> and \<^verbatim>\<open>operator/=\<close>. Dividing an integer
  by zero is undefined behaviour; dividing a \<^verbatim>\<open>double\<close> by zero gives an infinity or
  a NaN. Both are the failure \<open>DivisionByZero\<close> here.
\<close>

datatype error = AssertionFailed | DivisionByZero

subsection \<open>Array subscript operator\<close>

text \<open>
  What the body of \<^verbatim>\<open>operator[]\<close> computes: it reads a member through the table
  of member pointers \<^verbatim>\<open>{&Vector::x, &Vector::y}\<close>. The index is a \<^verbatim>\<open>std::size_t\<close>;
  no arithmetic is done on it.
\<close>

definition ptrs_Vector :: "('a Vector \<Rightarrow> 'a) list" where
  "ptrs_Vector = [Vector.x, Vector.y]"

definition subscript_Vector :: "'a Vector \<Rightarrow> nat \<Rightarrow> error + 'a" where
  "subscript_Vector v idx =
     (if idx < 2 then Inr ((ptrs_Vector ! idx) v) else Inl AssertionFailed)"

text \<open>
  The non-\<^verbatim>\<open>const\<close> overload has the same body and returns \<^verbatim>\<open>T&\<close>. Whether a call
  compiles is decided by the types. The table is declared
  \<^verbatim>\<open>static const T Vector::* ptrs[]\<close> in both overloads, so its entries point to a
  member of type \<^verbatim>\<open>const T\<close>; \<^verbatim>\<open>this->*ptrs[idx]\<close> is \<^verbatim>\<open>const\<close> when the object or
  the member type is; and a reference to non-\<^verbatim>\<open>const\<close> does not bind to a \<^verbatim>\<open>const\<close>
  lvalue. A member function of a class template is instantiated when it is called,
  and the overload called is the non-\<^verbatim>\<open>const\<close> one for a non-\<^verbatim>\<open>const\<close> object and the
  \<^verbatim>\<open>const\<close> one for a \<^verbatim>\<open>const\<close> object.
\<close>

datatype cv = Mutable | Const

datatype overload = Non_const_overload | Const_overload

datatype 'a compiled = Ill_formed | Well_formed 'a

definition this_cv :: "overload \<Rightarrow> cv" where
  "this_cv ov = (case ov of Non_const_overload \<Rightarrow> Mutable | Const_overload \<Rightarrow> Const)"

definition return_cv :: "overload \<Rightarrow> cv" where
  "return_cv ov = (case ov of Non_const_overload \<Rightarrow> Mutable | Const_overload \<Rightarrow> Const)"

definition ptrs_member_cv :: cv where
  "ptrs_member_cv = Const"

definition member_access_cv :: "cv \<Rightarrow> cv \<Rightarrow> cv" where
  "member_access_cv object member = (if object = Const \<or> member = Const then Const else Mutable)"

definition binds :: "cv \<Rightarrow> cv \<Rightarrow> bool" where
  "binds reference lvalue \<longleftrightarrow> reference = Const \<or> lvalue = Mutable"

definition subscript_well_formed :: "overload \<Rightarrow> bool" where
  "subscript_well_formed ov \<longleftrightarrow>
     binds (return_cv ov) (member_access_cv (this_cv ov) ptrs_member_cv)"

definition overload_for :: "cv \<Rightarrow> overload" where
  "overload_for object = (case object of Mutable \<Rightarrow> Non_const_overload | Const \<Rightarrow> Const_overload)"

text \<open>The expression \<^verbatim>\<open>v[idx]\<close> for an object \<open>v\<close> of the given qualification.\<close>

definition subscript_call_Vector :: "cv \<Rightarrow> 'a Vector \<Rightarrow> nat \<Rightarrow> (error + 'a) compiled" where
  "subscript_call_Vector object v idx =
     (if subscript_well_formed (overload_for object) then Well_formed (subscript_Vector v idx)
      else Ill_formed)"

subsection \<open>Arithmetic operators\<close>

definition plus_Vector :: "'a::plus Vector \<Rightarrow> 'a Vector \<Rightarrow> 'a Vector" where
  "plus_Vector lhs rhs =
     \<lparr>Vector.x = Vector.x lhs + Vector.x rhs, Vector.y = Vector.y lhs + Vector.y rhs\<rparr>"

definition minus_Vector :: "'a::minus Vector \<Rightarrow> 'a Vector \<Rightarrow> 'a Vector" where
  "minus_Vector lhs rhs =
     \<lparr>Vector.x = Vector.x lhs - Vector.x rhs, Vector.y = Vector.y lhs - Vector.y rhs\<rparr>"

definition times_Vector :: "'a::times Vector \<Rightarrow> 'a \<Rightarrow> 'a Vector" where
  "times_Vector vector scalar =
     \<lparr>Vector.x = Vector.x vector * scalar, Vector.y = Vector.y vector * scalar\<rparr>"

definition scalar_times_Vector :: "'a::times \<Rightarrow> 'a Vector \<Rightarrow> 'a Vector" where
  "scalar_times_Vector scalar vector = times_Vector vector scalar"

definition divide_Vector :: "'a::{divide,zero} Vector \<Rightarrow> 'a \<Rightarrow> error + 'a Vector" where
  "divide_Vector vector scalar =
     (if scalar = 0 then Inl DivisionByZero
      else Inr \<lparr>Vector.x = Vector.x vector div scalar, Vector.y = Vector.y vector div scalar\<rparr>)"

subsection \<open>Relational operators\<close>

definition eq_Vector :: "'a Vector \<Rightarrow> 'a Vector \<Rightarrow> bool" where
  "eq_Vector lhs rhs = (Vector.x lhs = Vector.x rhs \<and> Vector.y lhs = Vector.y rhs)"

definition neq_Vector :: "'a Vector \<Rightarrow> 'a Vector \<Rightarrow> bool" where
  "neq_Vector lhs rhs = (\<not> eq_Vector lhs rhs)"

definition less_eq_Vector :: "'a::ord Vector \<Rightarrow> 'a Vector \<Rightarrow> bool" where
  "less_eq_Vector lhs rhs = (Vector.x lhs \<le> Vector.x rhs \<and> Vector.y lhs \<le> Vector.y rhs)"

definition greater_eq_Vector :: "'a::ord Vector \<Rightarrow> 'a Vector \<Rightarrow> bool" where
  "greater_eq_Vector lhs rhs = less_eq_Vector rhs lhs"

definition less_Vector :: "'a::ord Vector \<Rightarrow> 'a Vector \<Rightarrow> bool" where
  "less_Vector lhs rhs = (less_eq_Vector lhs rhs \<and> neq_Vector lhs rhs)"

definition greater_Vector :: "'a::ord Vector \<Rightarrow> 'a Vector \<Rightarrow> bool" where
  "greater_Vector lhs rhs = less_Vector rhs lhs"

subsection \<open>Geometry functions\<close>

text \<open>
  \<open>sqrtT\<close> is \<^verbatim>\<open>std::sqrt\<close> followed by the conversion to the return type \<open>T\<close>:
  \<open>sqrt_unsigned\<close>, \<open>sqrt_int\<close> or \<open>sqrt_double\<close>.
\<close>

definition length_Vector :: "('a \<Rightarrow> 'a) \<Rightarrow> 'a::{plus,times} Vector \<Rightarrow> 'a" where
  "length_Vector sqrtT v = sqrtT (Vector.x v * Vector.x v + Vector.y v * Vector.y v)"

definition normalized ::
  "('a \<Rightarrow> 'a) \<Rightarrow> 'a::{plus,times,divide,zero} Vector \<Rightarrow> error + 'a Vector" where
  "normalized sqrtT v =
     (let l = length_Vector sqrtT v
      in if l = 0 then Inr Vector_default else divide_Vector v l)"

subsection \<open>\<^verbatim>\<open>std::less\<close>\<close>

text \<open>
  \<^verbatim>\<open>operator<\<close> of \<^verbatim>\<open>std::tuple\<close> on two-element tuples, as the standard defines it:
  the first components decide unless neither is less than the other.
\<close>

definition tuple_less :: "'a::ord \<times> 'a \<Rightarrow> 'a \<times> 'a \<Rightarrow> bool" where
  "tuple_less l r = (fst l < fst r \<or> (\<not> fst r < fst l \<and> snd l < snd r))"

definition std_less_Vector :: "'a::ord Vector \<Rightarrow> 'a Vector \<Rightarrow> bool" where
  "std_less_Vector lhs rhs =
     tuple_less (Vector.x lhs, Vector.y lhs) (Vector.x rhs, Vector.y rhs)"

section \<open>Point\<close>

record 'a Point =
  x :: 'a
  y :: 'a

definition Point_default :: "'a::zero Point" where
  "Point_default = \<lparr>Point.x = 0, Point.y = 0\<rparr>"

definition ptrs_Point :: "('a Point \<Rightarrow> 'a) list" where
  "ptrs_Point = [Point.x, Point.y]"

definition subscript_Point :: "'a Point \<Rightarrow> nat \<Rightarrow> error + 'a" where
  "subscript_Point p idx =
     (if idx < 2 then Inr ((ptrs_Point ! idx) p) else Inl AssertionFailed)"

text \<open>
  The two overloads of \<^verbatim>\<open>Point\<close> are declared as those of \<^verbatim>\<open>Vector\<close> are, with
  \<^verbatim>\<open>static const T Point::* ptrs[]\<close>.
\<close>

definition subscript_call_Point :: "cv \<Rightarrow> 'a Point \<Rightarrow> nat \<Rightarrow> (error + 'a) compiled" where
  "subscript_call_Point object p idx =
     (if subscript_well_formed (overload_for object) then Well_formed (subscript_Point p idx)
      else Ill_formed)"

definition plus_Point :: "'a::plus Point \<Rightarrow> 'a Vector \<Rightarrow> 'a Point" where
  "plus_Point lhs rhs =
     \<lparr>Point.x = Point.x lhs + Vector.x rhs, Point.y = Point.y lhs + Vector.y rhs\<rparr>"

definition minus_Point :: "'a::minus Point \<Rightarrow> 'a Vector \<Rightarrow> 'a Point" where
  "minus_Point lhs rhs =
     \<lparr>Point.x = Point.x lhs - Vector.x rhs, Point.y = Point.y lhs - Vector.y rhs\<rparr>"

definition minus_Point_Point :: "'a::minus Point \<Rightarrow> 'a Point \<Rightarrow> 'a Vector" where
  "minus_Point_Point lhs rhs =
     \<lparr>Vector.x = Point.x lhs - Point.x rhs, Vector.y = Point.y lhs - Point.y rhs\<rparr>"

definition eq_Point :: "'a Point \<Rightarrow> 'a Point \<Rightarrow> bool" where
  "eq_Point lhs rhs = (Point.x lhs = Point.x rhs \<and> Point.y lhs = Point.y rhs)"

definition neq_Point :: "'a Point \<Rightarrow> 'a Point \<Rightarrow> bool" where
  "neq_Point lhs rhs = (\<not> eq_Point lhs rhs)"

definition less_eq_Point :: "'a::ord Point \<Rightarrow> 'a Point \<Rightarrow> bool" where
  "less_eq_Point lhs rhs = (Point.x lhs \<le> Point.x rhs \<and> Point.y lhs \<le> Point.y rhs)"

definition greater_eq_Point :: "'a::ord Point \<Rightarrow> 'a Point \<Rightarrow> bool" where
  "greater_eq_Point lhs rhs = less_eq_Point rhs lhs"

definition less_Point :: "'a::ord Point \<Rightarrow> 'a Point \<Rightarrow> bool" where
  "less_Point lhs rhs = (less_eq_Point lhs rhs \<and> neq_Point lhs rhs)"

definition greater_Point :: "'a::ord Point \<Rightarrow> 'a Point \<Rightarrow> bool" where
  "greater_Point lhs rhs = less_Point rhs lhs"

definition std_less_Point :: "'a::ord Point \<Rightarrow> 'a Point \<Rightarrow> bool" where
  "std_less_Point lhs rhs =
     tuple_less (Point.x lhs, Point.y lhs) (Point.x rhs, Point.y rhs)"

section \<open>Vectors and points of \<^verbatim>\<open>int\<close>\<close>

text \<open>The vectors and points all of whose components are values of type \<^verbatim>\<open>int\<close>.\<close>

definition int_Vector :: "cint Vector \<Rightarrow> bool" where
  "int_Vector v \<longleftrightarrow> is_int (Vector.x v) \<and> is_int (Vector.y v)"

definition int_Point :: "cint Point \<Rightarrow> bool" where
  "int_Point p \<longleftrightarrow> is_int (Point.x p) \<and> is_int (Point.y p)"

section \<open>Compound assignment\<close>

text \<open>
  The compound forms mutate \<^verbatim>\<open>*this\<close> and take their right operand by reference
  (\<^verbatim>\<open>const Vector<U>& rhs\<close>, \<^verbatim>\<open>const U& scalar\<close>), so the operand may be the
  left operand itself or one of its members. Memory is a map from references to
  values. An object is named by a number; \<open>Vector_x n\<close> and \<open>Vector_y n\<close> are the
  members of the \<^verbatim>\<open>Vector\<close> object \<open>n\<close>, \<open>Point_x n\<close> and \<open>Point_y n\<close> those of the
  \<^verbatim>\<open>Point\<close> object \<open>n\<close>, and \<open>Var n\<close> is a scalar variable. Each operator returns
  \<^verbatim>\<open>*this\<close>, the object it was called on, with the memory it leaves.
\<close>

datatype ref = Var nat | Vector_x nat | Vector_y nat | Point_x nat | Point_y nat

type_synonym 'a memory = "ref \<Rightarrow> 'a"

definition load_Vector :: "'a memory \<Rightarrow> nat \<Rightarrow> 'a Vector" where
  "load_Vector m this = \<lparr>Vector.x = m (Vector_x this), Vector.y = m (Vector_y this)\<rparr>"

definition load_Point :: "'a memory \<Rightarrow> nat \<Rightarrow> 'a Point" where
  "load_Point m this = \<lparr>Point.x = m (Point_x this), Point.y = m (Point_y this)\<rparr>"

definition plus_assign_Vector :: "nat \<Rightarrow> nat \<Rightarrow> 'a::plus memory \<Rightarrow> nat \<times> 'a memory" where
  "plus_assign_Vector this rhs m =
     (let m1 = m(Vector_x this := m (Vector_x this) + m (Vector_x rhs));
          m2 = m1(Vector_y this := m1 (Vector_y this) + m1 (Vector_y rhs))
      in (this, m2))"

definition minus_assign_Vector :: "nat \<Rightarrow> nat \<Rightarrow> 'a::minus memory \<Rightarrow> nat \<times> 'a memory" where
  "minus_assign_Vector this rhs m =
     (let m1 = m(Vector_x this := m (Vector_x this) - m (Vector_x rhs));
          m2 = m1(Vector_y this := m1 (Vector_y this) - m1 (Vector_y rhs))
      in (this, m2))"

definition times_assign_Vector :: "nat \<Rightarrow> ref \<Rightarrow> 'a::times memory \<Rightarrow> nat \<times> 'a memory" where
  "times_assign_Vector this scalar m =
     (let m1 = m(Vector_x this := m (Vector_x this) * m scalar);
          m2 = m1(Vector_y this := m1 (Vector_y this) * m1 scalar)
      in (this, m2))"

definition divide_assign_Vector ::
  "nat \<Rightarrow> ref \<Rightarrow> 'a::{divide,zero} memory \<Rightarrow> error + nat \<times> 'a memory" where
  "divide_assign_Vector this scalar m =
     (if m scalar = 0 then Inl DivisionByZero
      else let m1 = m(Vector_x this := m (Vector_x this) div m scalar)
        in if m1 scalar = 0 then Inl DivisionByZero
           else Inr (this, m1(Vector_y this := m1 (Vector_y this) div m1 scalar)))"

definition plus_assign_Point :: "nat \<Rightarrow> nat \<Rightarrow> 'a::plus memory \<Rightarrow> nat \<times> 'a memory" where
  "plus_assign_Point this rhs m =
     (let m1 = m(Point_x this := m (Point_x this) + m (Vector_x rhs));
          m2 = m1(Point_y this := m1 (Point_y this) + m1 (Vector_y rhs))
      in (this, m2))"

definition minus_assign_Point :: "nat \<Rightarrow> nat \<Rightarrow> 'a::minus memory \<Rightarrow> nat \<times> 'a memory" where
  "minus_assign_Point this rhs m =
     (let m1 = m(Point_x this := m (Point_x this) - m (Vector_x rhs));
          m2 = m1(Point_y this := m1 (Point_y this) - m1 (Vector_y rhs))
      in (this, m2))"

section \<open>Sorting with \<^verbatim>\<open>std::less\<close>\<close>

text \<open>
  A sort that is given the comparison as a parameter, as \<^verbatim>\<open>std::sort\<close> is: insertion
  into a sorted list, where the new element goes before the first element it is less
  than.
\<close>

fun insert_by :: "('a \<Rightarrow> 'a \<Rightarrow> bool) \<Rightarrow> 'a \<Rightarrow> 'a list \<Rightarrow> 'a list" where
  "insert_by cmp a [] = [a]"
| "insert_by cmp a (b # bs) = (if cmp a b then a # b # bs else b # insert_by cmp a bs)"

fun sort_by :: "('a \<Rightarrow> 'a \<Rightarrow> bool) \<Rightarrow> 'a list \<Rightarrow> 'a list" where
  "sort_by cmp [] = []"
| "sort_by cmp (a # as) = insert_by cmp a (sort_by cmp as)"

section \<open>Equality and the element type \<^verbatim>\<open>int\<close>\<close>

text \<open>\<^verbatim>\<open>operator==\<close> compares both members, so it is equality of the values.\<close>

lemma eq_Vector_iff: "eq_Vector a b \<longleftrightarrow> a = b"
  by (auto simp: eq_Vector_def)

lemma eq_Point_iff: "eq_Point a b \<longleftrightarrow> a = b"
  by (auto simp: eq_Point_def)

lemma cint_simps:
  "CInt a < CInt b \<longleftrightarrow> a < b"
  "(0::cint) = CInt 0"
  "to_int i = (if - 2147483648 \<le> i \<and> i \<le> 2147483647 then CInt i else Undefined)"
  by (auto simp: less_cint_def zero_cint_def to_int_def int_range_def)

lemma is_int_CInt [simp]: "is_int (CInt i) \<longleftrightarrow> int_range i"
  by (simp add: is_int_def)

lemma is_int_Undefined [simp]: "\<not> is_int Undefined"
  by (simp add: is_int_def)

lemma is_int_to_int [simp]: "is_int (to_int i) \<longleftrightarrow> int_range i"
  by (simp add: to_int_def)

lemma to_int_in_range: "int_range i \<Longrightarrow> to_int i = CInt i"
  by (simp add: to_int_def)

lemma plus_minus_cint:
  assumes "is_int a" and "is_int (a + b)"
  shows "a + b - b = a"
  using assms by (cases a; cases b) (auto simp: to_int_def split: if_splits)

lemma minus_plus_cint:
  assumes "is_int a" and "is_int (a - b)"
  shows "a - b + b = a"
  using assms by (cases a; cases b) (auto simp: to_int_def split: if_splits)

lemma plus_displacement_cint:
  assumes "is_int a" and "is_int (a - c)"
  shows "c + (a - c) = a"
  using assms by (cases a; cases c) (auto simp: to_int_def split: if_splits)



section \<open>Rounding\<close>

lemma pow2_pos [simp]: "0 < pow2 k"
  by (simp add: pow2_def)

lemma pow2_nonneg [simp]: "0 \<le> pow2 k"
  by (simp add: pow2_def)

lemma pow2_add: "pow2 (j + k) = pow2 j * pow2 k"
  by (simp add: pow2_def powr_add)

lemma pow2_nat: "pow2 (int n) = 2 ^ n"
  by (simp add: pow2_def powr_realpow)

lemma pow2_numeral [simp]: "pow2 (numeral n) = 2 ^ numeral n"
  using pow2_nat [of "numeral n"] by simp

lemma pow2_0 [simp]: "pow2 0 = 1"
  by (simp add: pow2_def)

lemma pow2_1 [simp]: "pow2 1 = 2"
  by (simp add: pow2_def)

lemma pow2_minus: "pow2 (- k) = 1 / pow2 k"
  by (simp add: pow2_def powr_minus divide_inverse)

lemma pow2_neg_numeral [simp]: "pow2 (- numeral n) = 1 / 2 ^ numeral n"
  by (simp only: pow2_minus pow2_numeral)

lemma pow2_mono: "j \<le> k \<Longrightarrow> pow2 j \<le> pow2 k"
  by (simp add: pow2_def)

lemma floor_log2_eq:
  assumes "pow2 k \<le> \<bar>r\<bar>" and "\<bar>r\<bar> < pow2 (k + 1)"
  shows "\<lfloor>log 2 \<bar>r\<bar>\<rfloor> = k"
proof -
  from assms(1) have "0 < \<bar>r\<bar>"
    using pow2_pos [of k] by linarith
  with assms show ?thesis
    by (simp add: floor_log_eq_powr_iff pow2_def)
qed

lemma floor_log2_bounds:
  assumes "r \<noteq> 0"
  shows "pow2 \<lfloor>log 2 \<bar>r\<bar>\<rfloor> \<le> \<bar>r\<bar>" and "\<bar>r\<bar> < pow2 (\<lfloor>log 2 \<bar>r\<bar>\<rfloor> + 1)"
proof -
  from assms have "0 < \<bar>r\<bar>" by simp
  then have "pow2 \<lfloor>log 2 \<bar>r\<bar>\<rfloor> \<le> \<bar>r\<bar> \<and> \<bar>r\<bar> < pow2 (\<lfloor>log 2 \<bar>r\<bar>\<rfloor> + 1)"
    using floor_log_eq_powr_iff [of "\<bar>r\<bar>" 2 "\<lfloor>log 2 \<bar>r\<bar>\<rfloor>"] by (simp add: pow2_def)
  then show "pow2 \<lfloor>log 2 \<bar>r\<bar>\<rfloor> \<le> \<bar>r\<bar>" and "\<bar>r\<bar> < pow2 (\<lfloor>log 2 \<bar>r\<bar>\<rfloor> + 1)"
    by simp_all
qed

lemma round_ties_even_error: "\<bar>of_int (round_ties_even r) - r\<bar> \<le> 1 / 2"
proof -
  have "of_int \<lfloor>r\<rfloor> \<le> r" "r < of_int \<lfloor>r\<rfloor> + 1"
    by linarith+
  then show ?thesis
    by (auto simp: round_ties_even_def Let_def)
qed

lemma round_ties_even_unique:
  assumes "of_int m - 1 / 2 < r" and "r < of_int m + 1 / 2"
  shows "round_ties_even r = m"
proof -
  have "\<bar>of_int (round_ties_even r) - r\<bar> \<le> 1 / 2"
    by (rule round_ties_even_error)
  with assms have "\<bar>real_of_int (round_ties_even r) - real_of_int m\<bar> < 1"
    by linarith
  then have "\<bar>round_ties_even r - m\<bar> < 1"
    by (metis of_int_diff of_int_abs of_int_less_1_iff)
  then show ?thesis by simp
qed

lemma round_ties_even_of_int [simp]: "round_ties_even (of_int m) = m"
  by (rule round_ties_even_unique) simp_all

lemma fl_0 [simp]: "fl 0 = Finite 0"
  by (simp add: fl_def)

text \<open>Evaluating \<open>fl\<close> at a given number, from its binade and rounded significand.\<close>

lemma fl_eval:
  assumes "pow2 k \<le> \<bar>r\<bar>" and "\<bar>r\<bar> < pow2 (k + 1)"
    and "e = max k (- 1022) - 52"
    and "round_ties_even (r / pow2 e) = m"
    and "\<bar>of_int m * pow2 e\<bar> < 2 ^ 1024"
  shows "fl r = Finite (of_int m * pow2 e)"
proof -
  from assms(1) pow2_pos [of k] have "0 < \<bar>r\<bar>"
    by linarith
  then have "r \<noteq> 0"
    by simp
  moreover from assms(1,2) have "\<lfloor>log 2 \<bar>r\<bar>\<rfloor> = k"
    by (rule floor_log2_eq)
  ultimately show ?thesis
    using assms(3-5) by (simp add: fl_def Let_def abs_less_iff)
qed


text \<open>
  Zero and the numbers of the normal range are rounded with a relative error of at
  most \<open>2\<^sup>-\<^sup>5\<^sup>3\<close>, and not to an infinity.
\<close>

lemma fl_relative_error:
  assumes "normal_range r"
  shows "\<exists>d. \<bar>d\<bar> \<le> pow2 (- 53) \<and> fl r = Finite (r * (1 + d))"
proof (cases "r = 0")
  case True
  then show ?thesis
    by (intro exI [of _ 0]) simp
next
  case False
  define k where "k = \<lfloor>log 2 \<bar>r\<bar>\<rfloor>"
  define e where "e = k - 52"
  define m where "m = round_ties_even (r / pow2 e)"
  define s where "s = of_int m * pow2 e"
  from False have lo: "pow2 k \<le> \<bar>r\<bar>" and hi: "\<bar>r\<bar> < pow2 (k + 1)"
    unfolding k_def by (rule floor_log2_bounds)+
  from False assms have range: "pow2 (- 1022) \<le> \<bar>r\<bar>" "\<bar>r\<bar> < pow2 1023"
    by (simp_all add: normal_range_def)
  have k_lo: "- 1022 \<le> k"
  proof (rule ccontr)
    assume "\<not> - 1022 \<le> k"
    then have "k + 1 \<le> - 1022" by simp
    then have "pow2 (k + 1) \<le> pow2 (- 1022)" by (rule pow2_mono)
    with hi range(1) show False by linarith
  qed
  have k_hi: "k \<le> 1022"
  proof (rule ccontr)
    assume "\<not> k \<le> 1022"
    then have "1023 \<le> k" by simp
    then have "pow2 1023 \<le> pow2 k" by (rule pow2_mono)
    with lo range(2) show False by linarith
  qed
  have ne: "pow2 e \<noteq> 0"
    using pow2_pos [of e] by linarith
  have "s - r = (of_int m - r / pow2 e) * pow2 e"
    using ne by (simp add: s_def left_diff_distrib)
  then have "\<bar>s - r\<bar> = \<bar>of_int m - r / pow2 e\<bar> * pow2 e"
    by (simp add: abs_mult)
  also have "\<dots> \<le> 1 / 2 * pow2 e"
    unfolding m_def by (intro mult_right_mono round_ties_even_error) simp
  finally have err: "\<bar>s - r\<bar> \<le> pow2 e / 2"
    by simp
  have "pow2 e / 2 = pow2 (- 53) * pow2 k"
    by (simp add: e_def pow2_add [symmetric] pow2_minus field_simps)
      (simp add: pow2_add [of k "- 52", simplified] field_simps)
  also have "\<dots> \<le> pow2 (- 53) * \<bar>r\<bar>"
    using lo by (intro mult_left_mono) simp_all
  finally have half: "pow2 e / 2 \<le> pow2 (- 53) * \<bar>r\<bar>" .
  with err have rel: "\<bar>s - r\<bar> \<le> pow2 (- 53) * \<bar>r\<bar>"
    by linarith
  have "\<bar>s\<bar> \<le> \<bar>r\<bar> + \<bar>s - r\<bar>" by linarith
  also have "\<dots> \<le> \<bar>r\<bar> + pow2 (- 53) * \<bar>r\<bar>" using rel by linarith
  also have "\<dots> \<le> 2 * \<bar>r\<bar>"
    by (simp add: field_simps)
  also have "\<dots> < 2 * pow2 1023" using range(2) by simp
  also have "\<dots> = 2 ^ 1024" by simp
  finally have no_overflow: "\<bar>s\<bar> < 2 ^ 1024" .
  have "max k (- 1022) - 52 = e"
    using k_lo by (simp add: e_def)
  with False no_overflow have fl: "fl r = Finite s"
    by (simp add: fl_def Let_def k_def [symmetric] s_def m_def abs_less_iff)
  define d where "d = (s - r) / r"
  have "r * (1 + d) = s"
    using False by (simp add: d_def field_simps)
  moreover have "\<bar>d\<bar> \<le> pow2 (- 53)"
    using False rel by (simp add: d_def field_simps)
  ultimately show ?thesis
    using fl by (intro exI [of _ d]) simp
qed


lemma fl_eval_round:
  assumes "pow2 k \<le> \<bar>r\<bar>" and "\<bar>r\<bar> < pow2 (k + 1)" and "- 1022 \<le> k"
    and "(of_int m - 1 / 2) * pow2 (k - 52) < r" and "r < (of_int m + 1 / 2) * pow2 (k - 52)"
    and "\<bar>of_int m * pow2 (k - 52)\<bar> < 2 ^ 1024"
  shows "fl r = Finite (of_int m * pow2 (k - 52))"
proof (rule fl_eval [OF assms(1,2)])
  show "k - 52 = max k (- 1022) - 52"
    using assms(3) by simp
  show "round_ties_even (r / pow2 (k - 52)) = m"
    using assms(4,5) by (intro round_ties_even_unique) (simp_all add: field_simps)
  show "\<bar>of_int m * pow2 (k - 52)\<bar> < 2 ^ 1024"
    by (rule assms(6))
qed

lemma fl_1 [simp]: "fl 1 = Finite 1"
  using fl_eval_round [of 0 1 "2 ^ 52"] by simp

text \<open>The sum \<open>2\<^sup>5\<^sup>3 + 1\<close> lies halfway between two numbers and is rounded to the even one.\<close>

lemma round_tie: "round_ties_even (9007199254740993 / 2) = 4503599627370496"
  by (simp add: round_ties_even_def Let_def)

lemma fl_2_53_plus_1: "fl 9007199254740993 = Finite 9007199254740992"
  using fl_eval [of 53 9007199254740993 1 4503599627370496] round_tie by simp



lemma pow2_strict_mono: "j < k \<Longrightarrow> pow2 j < pow2 k"
  by (simp add: pow2_def)

lemma pow2_neq_0: "pow2 k \<noteq> 0"
  by (simp add: pow2_def)

lemma pow2_less_imp:
  assumes "pow2 j < pow2 k"
  shows "j < k"
proof (rule ccontr)
  assume "\<not> j < k"
  then have "k \<le> j"
    by simp
  then have "pow2 k \<le> pow2 j"
    by (rule pow2_mono)
  with assms show False
    by linarith
qed

lemma pow2_double: "2 * pow2 k = pow2 (k + 1)"
  by (simp add: pow2_add)

lemma pow2_half: "pow2 k / 2 = pow2 (k - 1)"
  using pow2_add [of "k - 1" 1] by simp

lemma pow2_square: "pow2 k * pow2 k = pow2 (2 * k)"
  using pow2_add [of k k] by simp

lemma sqrt_pow2: "sqrt (pow2 (2 * k)) = pow2 k"
  by (simp add: pow2_square [symmetric])

lemma normal_range_band:
  assumes "pow2 j \<le> \<bar>r\<bar>" and "\<bar>r\<bar> \<le> pow2 k" and "- 1022 \<le> j" and "k < 1023"
  shows "normal_range r"
proof -
  have "pow2 (- 1022) \<le> pow2 j"
    using assms(3) by (rule pow2_mono)
  moreover have "pow2 k < pow2 1023"
    using assms(4) by (rule pow2_strict_mono)
  ultimately have "pow2 (- 1022) \<le> \<bar>r\<bar> \<and> \<bar>r\<bar> < pow2 1023"
    using assms(1,2) by linarith
  then show ?thesis
    unfolding normal_range_def by (rule disjI2)
qed

text \<open>Numbers too small or too large for the format.\<close>

lemma fl_underflow:
  assumes "\<bar>r\<bar> < pow2 (- 1075)"
  shows "fl r = Finite 0"
proof (cases "r = 0")
  case True
  then show ?thesis by simp
next
  case False
  let ?k = "\<lfloor>log 2 \<bar>r\<bar>\<rfloor>"
  from floor_log2_bounds(1) [OF False] assms have "pow2 ?k < pow2 (- 1075)"
    by linarith
  then have "?k < - 1075"
    by (rule pow2_less_imp)
  then have e: "max ?k (- 1022) - 52 = - 1074"
    by simp
  have "\<bar>r\<bar> / pow2 (- 1074) < pow2 (- 1075) / pow2 (- 1074)"
    using assms by (simp only: divide_strict_right_mono pow2_pos)
  moreover have "pow2 (- 1075) / pow2 (- 1074) = 1 / 2"
    using pow2_add [of "- 1075" 1] by (simp only: pow2_1) simp
  ultimately have "\<bar>r / pow2 (- 1074)\<bar> < 1 / 2"
    by (simp only: abs_divide abs_of_pos [OF pow2_pos])
  then have "round_ties_even (r / pow2 (- 1074)) = 0"
    by (intro round_ties_even_unique) (simp_all add: abs_less_iff)
  then show ?thesis
    using False by (simp only: fl_def e Let_def) simp
qed

lemma fl_overflow:
  assumes "2 ^ 1024 \<le> r"
  shows "fl r = PInf"
proof -
  let ?k = "\<lfloor>log 2 \<bar>r\<bar>\<rfloor>"
  have large: "pow2 1024 \<le> r"
    using assms by simp
  then have pos: "0 < r"
    using pow2_pos [of 1024] by linarith
  then have nonzero: "r \<noteq> 0" and abs: "\<bar>r\<bar> = r"
    by simp_all
  from floor_log2_bounds [OF nonzero] have k: "pow2 ?k \<le> r" "r < pow2 (?k + 1)"
    by (simp_all only: abs)
  from large k(2) have "pow2 1024 < pow2 (?k + 1)"
    by linarith
  then have "1024 < ?k + 1"
    by (rule pow2_less_imp)
  then have k_large: "1024 \<le> ?k"
    by simp
  then have e: "max ?k (- 1022) - 52 = ?k - 52"
    by simp
  let ?m = "round_ties_even (r / pow2 (?k - 52))"
  have "pow2 ?k / pow2 (?k - 52) \<le> r / pow2 (?k - 52)"
    using k(1) by (simp only: divide_right_mono pow2_nonneg)
  moreover have "pow2 ?k = pow2 52 * pow2 (?k - 52)"
    by (simp only: pow2_add [symmetric]) simp
  then have "pow2 ?k / pow2 (?k - 52) = 2 ^ 52"
    by (simp add: pow2_neq_0)
  ultimately have "2 ^ 52 \<le> r / pow2 (?k - 52)"
    by simp
  moreover have "\<bar>of_int ?m - r / pow2 (?k - 52)\<bar> \<le> 1 / 2"
    by (rule round_ties_even_error)
  ultimately have "(2 :: real) ^ 52 - 1 < of_int ?m"
    by linarith
  then have "real_of_int (2 ^ 52 - 1) < of_int ?m"
    by simp
  then have "2 ^ 52 - 1 < ?m"
    by (simp only: of_int_less_iff)
  then have "2 ^ 52 \<le> ?m"
    by simp
  then have "real_of_int (2 ^ 52) \<le> of_int ?m"
    by (simp only: of_int_le_iff)
  then have "pow2 52 * pow2 (?k - 52) \<le> of_int ?m * pow2 (?k - 52)"
    by (intro mult_right_mono) simp_all
  moreover have "pow2 52 * pow2 (?k - 52) = pow2 ?k"
    by (simp only: pow2_add [symmetric]) simp
  moreover have "pow2 1024 \<le> pow2 ?k"
    using k_large by (rule pow2_mono)
  ultimately have "pow2 1024 \<le> of_int ?m * pow2 (?k - 52)"
    by (simp only:)
  then have "2 ^ 1024 \<le> of_int ?m * pow2 (?k - 52)"
    by simp
  then show ?thesis
    using nonzero by (simp only: fl_def e Let_def) simp
qed

section \<open>Accumulated rounding errors\<close>

lemma roundoff_bounds: "0 < 1 - unit_roundoff" "1 - unit_roundoff \<le> 1"
  by (simp_all add: unit_roundoff_def)

lemma roundoff_power_pos: "0 < (1 - unit_roundoff) ^ k"
  by (rule zero_less_power) (rule roundoff_bounds)

lemma roundoff_power_le_1: "(1 - unit_roundoff) ^ k \<le> 1"
  using roundoff_bounds by (intro power_le_one) simp_all

lemma roundoff_power_half:
  assumes "k \<le> 8"
  shows "1 / 2 \<le> (1 - unit_roundoff) ^ k"
proof -
  have "(1 - unit_roundoff) ^ 8 \<le> (1 - unit_roundoff) ^ k"
    using assms roundoff_bounds by (intro power_decreasing) simp_all
  moreover have "1 / 2 \<le> (1 - unit_roundoff) ^ 8"
    by (simp add: unit_roundoff_def power_divide)
  ultimately show ?thesis by linarith
qed

lemma near_refl: "near 0 r r"
  by (simp add: near_def)

lemma near_sym: "near k r s \<Longrightarrow> near k s r"
  by (simp add: near_def)

lemma near_nonneg:
  assumes "near k r s" and "0 \<le> s"
  shows "0 \<le> r"
proof -
  have "0 \<le> s * (1 - unit_roundoff) ^ k"
    using assms(2) roundoff_power_pos [of k] by simp
  with assms(1) show ?thesis
    by (simp add: near_def)
qed

lemma near_pos:
  assumes "near k r s" and "0 < s"
  shows "0 < r"
proof -
  have "0 < s * (1 - unit_roundoff) ^ k"
    using assms(2) roundoff_power_pos [of k] by simp
  with assms(1) show ?thesis
    by (simp add: near_def)
qed

lemma near_trans:
  assumes "near j r s" and "near k s t"
  shows "near (j + k) r t"
proof -
  let ?q = "1 - unit_roundoff"
  have q: "0 \<le> ?q ^ j" "0 \<le> ?q ^ k"
    using roundoff_power_pos by (simp_all add: less_imp_le)
  from assms have 1: "s * ?q ^ j \<le> r" and 2: "r * ?q ^ j \<le> s"
    and 3: "t * ?q ^ k \<le> s" and 4: "s * ?q ^ k \<le> t"
    by (simp_all add: near_def)
  from 3 q(1) have "t * ?q ^ k * ?q ^ j \<le> s * ?q ^ j"
    by (rule mult_right_mono)
  with 1 have lower: "t * ?q ^ (j + k) \<le> r"
    by (simp add: power_add mult_ac)
  from 2 q(2) have "r * ?q ^ j * ?q ^ k \<le> s * ?q ^ k"
    by (rule mult_right_mono)
  with 4 have "r * ?q ^ (j + k) \<le> t"
    by (simp add: power_add mult_ac)
  with lower show ?thesis
    by (simp add: near_def)
qed

lemma near_add:
  assumes "near k r s" and "near k r' s'"
  shows "near k (r + r') (s + s')"
  using assms by (simp add: near_def distrib_right)

lemma near_mult:
  assumes "near j r s" and "near k r' s'" and "0 \<le> s" and "0 \<le> s'"
  shows "near (j + k) (r * r') (s * s')"
proof -
  let ?q = "1 - unit_roundoff"
  have q: "0 \<le> ?q ^ j" "0 \<le> ?q ^ k"
    using roundoff_power_pos by (simp_all add: less_imp_le)
  from assms(1,3) have r: "0 \<le> r" by (rule near_nonneg)
  from assms(2,4) have r': "0 \<le> r'" by (rule near_nonneg)
  from assms have 1: "s * ?q ^ j \<le> r" and 2: "r * ?q ^ j \<le> s"
    and 3: "s' * ?q ^ k \<le> r'" and 4: "r' * ?q ^ k \<le> s'"
    by (simp_all add: near_def)
  have "(s * ?q ^ j) * (s' * ?q ^ k) \<le> r * r'"
    using 1 3 assms(3,4) q r by (intro mult_mono) simp_all
  moreover have "(r * ?q ^ j) * (r' * ?q ^ k) \<le> s * s'"
    using 2 4 r r' q assms(3) by (intro mult_mono) simp_all
  ultimately show ?thesis
    by (simp add: near_def power_add mult_ac)
qed

lemma near_divide:
  assumes "near j r s" and "near k r' s'" and "0 \<le> s" and "0 < s'"
  shows "near (j + k) (r / r') (s / s')"
proof -
  let ?q = "1 - unit_roundoff"
  have q: "0 \<le> ?q ^ j" "0 \<le> ?q ^ k"
    using roundoff_power_pos by (simp_all add: less_imp_le)
  from assms(1,3) have r: "0 \<le> r" by (rule near_nonneg)
  from assms(2,4) have r': "0 < r'" by (rule near_pos)
  from assms have 1: "s * ?q ^ j \<le> r" and 2: "r * ?q ^ j \<le> s"
    and 3: "s' * ?q ^ k \<le> r'" and 4: "r' * ?q ^ k \<le> s'"
    by (simp_all add: near_def)
  have "(s * ?q ^ j) * (r' * ?q ^ k) \<le> r * s'"
    using 1 4 assms(3) r' q r by (intro mult_mono) simp_all
  then have "s * ?q ^ (j + k) * r' \<le> r * s'"
    by (simp add: power_add mult_ac)
  then have lower: "s / s' * ?q ^ (j + k) \<le> r / r'"
    using r' assms(4) by (simp add: field_simps)
  have "(r * ?q ^ j) * (s' * ?q ^ k) \<le> s * r'"
    using 2 3 r assms(4) q assms(3) by (intro mult_mono) simp_all
  then have "r * ?q ^ (j + k) * s' \<le> s * r'"
    by (simp add: power_add mult_ac)
  then have "r / r' * ?q ^ (j + k) \<le> s / s'"
    using r' assms(4) by (simp add: field_simps)
  with lower show ?thesis
    by (simp add: near_def)
qed

lemma near_sqrt:
  assumes "near (2 * k) r s" and "0 \<le> s"
  shows "near k (sqrt r) (sqrt s)"
proof -
  let ?q = "1 - unit_roundoff"
  have q: "0 \<le> ?q ^ k"
    using roundoff_power_pos by (simp add: less_imp_le)
  have "?q ^ (2 * k) = (?q ^ k)\<^sup>2"
    by (simp add: power_even_eq)
  then have root: "sqrt (?q ^ (2 * k)) = ?q ^ k"
    using q by simp
  from assms(1) have "s * ?q ^ (2 * k) \<le> r" and "r * ?q ^ (2 * k) \<le> s"
    by (simp_all add: near_def)
  then have "sqrt (s * ?q ^ (2 * k)) \<le> sqrt r" and "sqrt (r * ?q ^ (2 * k)) \<le> sqrt s"
    by simp_all
  then show ?thesis
    by (simp add: near_def real_sqrt_mult root)
qed

lemma near_trans_eq:
  assumes "near j r s" and "near k s t" and "n = j + k"
  shows "near n r t"
  unfolding assms(3) using assms(1,2) by (rule near_trans)

lemma near_mult_eq:
  assumes "near j r s" and "near k r' s'" and "0 \<le> s" and "0 \<le> s'" and "n = j + k"
  shows "near n (r * r') (s * s')"
  unfolding assms(5) using assms(1-4) by (rule near_mult)

lemma near_divide_eq:
  assumes "near j r s" and "near k r' s'" and "0 \<le> s" and "0 < s'" and "n = j + k"
  shows "near n (r / r') (s / s')"
  unfolding assms(5) using assms(1-4) by (rule near_divide)

lemma near_sqrt_eq:
  assumes "near n r s" and "0 \<le> s" and "n = 2 * k"
  shows "near k (sqrt r) (sqrt s)"
  using assms(1,2) unfolding assms(3) by (rule near_sqrt)

lemma near_mono:
  assumes "near j r s" and "j \<le> k" and "0 \<le> s"
  shows "near k r s"
proof -
  from assms(2) obtain i where "k = j + i"
    using le_Suc_ex by blast
  moreover have "near i s s"
    using assms(3) roundoff_power_le_1 [of i] by (simp add: near_def mult_left_le)
  ultimately show ?thesis
    using near_trans [OF assms(1)] by simp
qed

lemma near_bounds:
  assumes "near k r s" and "k \<le> 8" and "0 \<le> s"
  shows "s / 2 \<le> r" and "r \<le> 2 * s"
proof -
  let ?q = "(1 - unit_roundoff) ^ k"
  have half: "1 / 2 \<le> ?q"
    using assms(2) by (rule roundoff_power_half)
  from assms(1,3) have r: "0 \<le> r" by (rule near_nonneg)
  from assms(1) have 1: "s * ?q \<le> r" and 2: "r * ?q \<le> s"
    by (simp_all add: near_def)
  have "s * (1 / 2) \<le> s * ?q"
    using half assms(3) by (rule mult_left_mono)
  with 1 show "s / 2 \<le> r" by simp
  have "r * (1 / 2) \<le> r * ?q"
    using half r by (rule mult_left_mono)
  with 2 show "r \<le> 2 * s" by simp
qed

lemma fl_near:
  assumes "normal_range r"
  shows "\<exists>r'. fl r = Finite r' \<and> near 1 \<bar>r'\<bar> \<bar>r\<bar> \<and> (0 \<le> r \<longrightarrow> 0 \<le> r')"
proof -
  from fl_relative_error [OF assms] obtain d
    where d: "\<bar>d\<bar> \<le> pow2 (- 53)" and fl: "fl r = Finite (r * (1 + d))"
    by blast
  from d have pos: "0 < 1 + d"
    by (simp add: abs_le_iff) 
  then have abs: "\<bar>r * (1 + d)\<bar> = \<bar>r\<bar> * (1 + d)"
    by (simp add: abs_mult)
  from d have lo: "1 - unit_roundoff \<le> 1 + d" and hi: "1 + d \<le> 1 + unit_roundoff"
    by (simp_all add: unit_roundoff_def abs_le_iff)
  have lower: "\<bar>r\<bar> * (1 - unit_roundoff) \<le> \<bar>r\<bar> * (1 + d)"
    using lo by (intro mult_left_mono) simp_all
  have "(1 + d) * (1 - unit_roundoff) \<le> (1 + unit_roundoff) * (1 - unit_roundoff)"
    using hi roundoff_bounds by (intro mult_right_mono) simp_all
  moreover have "(1 + unit_roundoff) * (1 - unit_roundoff) = 1 - unit_roundoff * unit_roundoff"
    by (simp add: algebra_simps)
  moreover have "0 \<le> unit_roundoff * unit_roundoff"
    by simp
  ultimately have "(1 + d) * (1 - unit_roundoff) \<le> 1"
    by linarith
  then have "\<bar>r\<bar> * ((1 + d) * (1 - unit_roundoff)) \<le> \<bar>r\<bar> * 1"
    by (intro mult_left_mono) simp_all
  with lower have "near 1 \<bar>r * (1 + d)\<bar> \<bar>r\<bar>"
    by (simp add: near_def abs mult.assoc)
  moreover have "0 \<le> r \<Longrightarrow> 0 \<le> r * (1 + d)"
    using pos by simp
  ultimately show ?thesis
    using fl by blast
qed

lemma near_band:
  assumes "near n r s" and "n \<le> 8" and "pow2 j \<le> s" and "s \<le> pow2 k"
  shows "pow2 (j - 1) \<le> r" and "r \<le> pow2 (k + 1)"
proof -
  have s: "0 \<le> s"
    using assms(3) pow2_nonneg [of j] by linarith
  from near_bounds [OF assms(1,2) s] have "s / 2 \<le> r" and "r \<le> 2 * s" .
  moreover have "pow2 j / 2 \<le> s / 2" and "2 * s \<le> 2 * pow2 k"
    using assms(3,4) by simp_all
  ultimately show "pow2 (j - 1) \<le> r" and "r \<le> pow2 (k + 1)"
    unfolding pow2_half [symmetric] pow2_double [symmetric] by linarith+
qed

lemma square_band:
  assumes "pow2 (- k) \<le> \<bar>a\<bar>" and "\<bar>a\<bar> \<le> pow2 k"
  shows "pow2 (- (2 * k)) \<le> a * a" and "a * a \<le> pow2 (2 * k)"
proof -
  have sq: "a * a = \<bar>a\<bar> * \<bar>a\<bar>"
    by simp
  have "pow2 (- k) * pow2 (- k) \<le> \<bar>a\<bar> * \<bar>a\<bar>"
    using assms(1) by (intro mult_mono) simp_all
  then show "pow2 (- (2 * k)) \<le> a * a"
    unfolding sq pow2_square by simp
  have "\<bar>a\<bar> * \<bar>a\<bar> \<le> pow2 k * pow2 k"
    using assms(2) by (intro mult_mono) simp_all
  then show "a * a \<le> pow2 (2 * k)"
    unfolding sq pow2_square .
qed

text \<open>Rounding a non-negative number of the normal range.\<close>

lemma fl_near_nonneg:
  assumes "normal_range r" and "0 \<le> r"
  obtains r' where "fl r = Finite r'" and "near 1 r' r" and "0 \<le> r'"
proof -
  from fl_near [OF assms(1)] obtain r'
    where "fl r = Finite r'" and "near 1 \<bar>r'\<bar> \<bar>r\<bar>" and "0 \<le> r \<longrightarrow> 0 \<le> r'"
    by blast
  with assms(2) have "fl r = Finite r'" and "near 1 r' r" and "0 \<le> r'"
    by simp_all
  then show thesis ..
qed

lemma square_rounded:
  assumes "0 \<le> k" and "k \<le> 505" and "magnitude_within k a"
  obtains s where "fl (a * a) = Finite s" and "near 1 s (a * a)" and "0 \<le> s"
proof -
  have "normal_range (a * a)"
  proof (cases "a = 0")
    case True
    then show ?thesis by (simp add: normal_range_def)
  next
    case False
    with assms(3) have "pow2 (- k) \<le> \<bar>a\<bar>" and "\<bar>a\<bar> \<le> pow2 k"
      by (simp_all add: magnitude_within_def)
    from square_band [OF this] have "pow2 (- (2 * k)) \<le> \<bar>a * a\<bar>" and "\<bar>a * a\<bar> \<le> pow2 (2 * k)"
      by (simp_all add: abs_mult)
    then show ?thesis
      by (rule normal_range_band) (use assms(1,2) in simp_all)
  qed
  moreover have "0 \<le> a * a"
    by simp
  ultimately show thesis
    using that by (rule fl_near_nonneg)
qed

section \<open>Translation and displacement\<close>

text \<open>
  With the element type \<^verbatim>\<open>double\<close>, the point \<open>(1, 0)\<close> translated by \<open>(2\<^sup>5\<^sup>3, 0)\<close> is
  \<open>(2\<^sup>5\<^sup>3, 0)\<close>, and translated back it is \<open>(0, 0)\<close>.
\<close>

theorem double_translation_not_exact:
  "\<not> eq_Point
       (minus_Point
          (plus_Point \<lparr>Point.x = Finite 1, Point.y = Finite 0\<rparr>
             \<lparr>Vector.x = Finite 9007199254740992, Vector.y = Finite 0\<rparr>)
          \<lparr>Vector.x = Finite 9007199254740992, Vector.y = Finite 0\<rparr>)
       \<lparr>Point.x = Finite 1, Point.y = Finite 0\<rparr>"
  by (simp add: eq_Point_def plus_Point_def minus_Point_def fl_2_53_plus_1)

text \<open>
  C4. For every point \<open>p\<close> and vector \<open>v\<close> of an integral element type,
  \<open>(p + v) - v == p\<close> and \<open>(p - v) + v == p\<close>, and for all points \<open>p\<close>, \<open>q\<close> the
  difference \<open>p - q\<close> is a vector (by its type) and \<open>q + (p - q) == p\<close>: for
  \<^verbatim>\<open>unsigned\<close>, whose arithmetic wraps, always; for \<^verbatim>\<open>int\<close> when the first of the two
  operations does not overflow.
\<close>

theorem translation_round_trip_integral:
  fixes p q :: "unsigned Point" and v :: "unsigned Vector"
    and pi qi :: "cint Point" and vi :: "cint Vector"
  shows "eq_Point (minus_Point (plus_Point p v) v) p \<and>
         eq_Point (plus_Point (minus_Point p v) v) p \<and>
         eq_Point (plus_Point q (minus_Point_Point p q)) p \<and>
         (int_Point pi \<and> int_Point (plus_Point pi vi) \<longrightarrow>
            eq_Point (minus_Point (plus_Point pi vi) vi) pi) \<and>
         (int_Point pi \<and> int_Point (minus_Point pi vi) \<longrightarrow>
            eq_Point (plus_Point (minus_Point pi vi) vi) pi) \<and>
         (int_Point pi \<and> int_Vector (minus_Point_Point pi qi) \<longrightarrow>
            eq_Point (plus_Point qi (minus_Point_Point pi qi)) pi)"
proof -
  have forth_and_back: "minus_Point (plus_Point p v) v = p"
    by (simp add: plus_Point_def minus_Point_def)
  have back_and_forth: "plus_Point (minus_Point p v) v = p"
    by (simp add: plus_Point_def minus_Point_def)
  have displacement: "plus_Point q (minus_Point_Point p q) = p"
    by (simp add: plus_Point_def minus_Point_Point_def)
  have int_forth: "minus_Point (plus_Point pi vi) vi = pi"
    if "int_Point pi" "int_Point (plus_Point pi vi)"
    using that by (simp add: plus_Point_def minus_Point_def int_Point_def plus_minus_cint)
  have int_back: "plus_Point (minus_Point pi vi) vi = pi"
    if "int_Point pi" "int_Point (minus_Point pi vi)"
    using that by (simp add: plus_Point_def minus_Point_def int_Point_def minus_plus_cint)
  have int_displacement: "plus_Point qi (minus_Point_Point pi qi) = pi"
    if "int_Point pi" "int_Vector (minus_Point_Point pi qi)"
    using that
    by (simp add: plus_Point_def minus_Point_Point_def int_Point_def int_Vector_def
        plus_displacement_cint)
  from forth_and_back back_and_forth displacement int_forth int_back int_displacement
  show ?thesis
    by (simp only: eq_Point_iff) blast
qed

theorem translation_round_trip_integral_witness:
  "int_Point \<lparr>Point.x = CInt 2147483647, Point.y = CInt 5\<rparr> \<and>
   int_Point (plus_Point \<lparr>Point.x = CInt 2147483647, Point.y = CInt 5\<rparr>
      \<lparr>Vector.x = CInt (- 7), Vector.y = CInt 3\<rparr>) \<and>
   eq_Point
     (minus_Point
        (plus_Point \<lparr>Point.x = CInt 2147483647, Point.y = CInt 5\<rparr>
           \<lparr>Vector.x = CInt (- 7), Vector.y = CInt 3\<rparr>)
        \<lparr>Vector.x = CInt (- 7), Vector.y = CInt 3\<rparr>)
     \<lparr>Point.x = CInt 2147483647, Point.y = CInt 5\<rparr> \<and>
   int_Point (minus_Point \<lparr>Point.x = CInt 2147483647, Point.y = CInt 5\<rparr>
      \<lparr>Vector.x = CInt 7, Vector.y = CInt 3\<rparr>) \<and>
   eq_Point
     (plus_Point
        (minus_Point \<lparr>Point.x = CInt 2147483647, Point.y = CInt 5\<rparr>
           \<lparr>Vector.x = CInt 7, Vector.y = CInt 3\<rparr>)
        \<lparr>Vector.x = CInt 7, Vector.y = CInt 3\<rparr>)
     \<lparr>Point.x = CInt 2147483647, Point.y = CInt 5\<rparr> \<and>
   int_Vector (minus_Point_Point \<lparr>Point.x = CInt 2147483647, Point.y = CInt 5\<rparr>
      \<lparr>Point.x = CInt 7, Point.y = CInt 3\<rparr>) \<and>
   eq_Point
     (plus_Point \<lparr>Point.x = CInt 7, Point.y = CInt 3\<rparr>
        (minus_Point_Point \<lparr>Point.x = CInt 2147483647, Point.y = CInt 5\<rparr>
           \<lparr>Point.x = CInt 7, Point.y = CInt 3\<rparr>))
     \<lparr>Point.x = CInt 2147483647, Point.y = CInt 5\<rparr>"
proof -
  let ?p = "\<lparr>Point.x = CInt 2147483647, Point.y = CInt 5\<rparr>"
  let ?q = "\<lparr>Point.x = CInt 7, Point.y = CInt 3\<rparr>"
  let ?v = "\<lparr>Vector.x = CInt (- 7), Vector.y = CInt 3\<rparr>"
  let ?w = "\<lparr>Vector.x = CInt 7, Vector.y = CInt 3\<rparr>"
  have p: "int_Point ?p"
    by (simp add: int_Point_def int_range_def)
  have sum: "int_Point (plus_Point ?p ?v)"
    by (simp add: int_Point_def plus_Point_def cint_simps int_range_def)
  have difference: "int_Point (minus_Point ?p ?w)"
    by (simp add: int_Point_def minus_Point_def cint_simps int_range_def)
  have displacement: "int_Vector (minus_Point_Point ?p ?q)"
    by (simp add: int_Vector_def minus_Point_Point_def cint_simps int_range_def)
  from translation_round_trip_integral [where pi = ?p and vi = ?v] p sum
  have "eq_Point (minus_Point (plus_Point ?p ?v) ?v) ?p"
    by blast
  moreover from translation_round_trip_integral [where pi = ?p and vi = ?w] p difference
  have "eq_Point (plus_Point (minus_Point ?p ?w) ?w) ?p"
    by blast
  moreover from translation_round_trip_integral [where pi = ?p and qi = ?q] p displacement
  have "eq_Point (plus_Point ?q (minus_Point_Point ?p ?q)) ?p"
    by blast
  ultimately show ?thesis
    using p sum difference displacement by (simp only: simp_thms)
qed

section \<open>Vector addition\<close>




section \<open>The dominance order\<close>

lemma less_eq_Vector_refl: "less_eq_Vector a (a :: 'a::preorder Vector)"
  by (simp add: less_eq_Vector_def)

lemma less_eq_Vector_trans:
  "less_eq_Vector a b \<Longrightarrow> less_eq_Vector b c \<Longrightarrow> less_eq_Vector a (c :: 'a::preorder Vector)"
  by (auto simp: less_eq_Vector_def intro: order_trans)

lemma neq_Vector_iff: "neq_Vector a b \<longleftrightarrow> a \<noteq> b"
  by (simp add: neq_Vector_def eq_Vector_iff)

lemma less_eq_Point_refl: "less_eq_Point a (a :: 'a::preorder Point)"
  by (simp add: less_eq_Point_def)

lemma less_eq_Point_trans:
  "less_eq_Point a b \<Longrightarrow> less_eq_Point b c \<Longrightarrow> less_eq_Point a (c :: 'a::preorder Point)"
  by (auto simp: less_eq_Point_def intro: order_trans)

lemma neq_Point_iff: "neq_Point a b \<longleftrightarrow> a \<noteq> b"
  by (simp add: neq_Point_def eq_Point_iff)

text \<open>
  C7. \<^verbatim>\<open>operator<=\<close> on vectors and on points is the componentwise order:
  \<open>a <= b\<close> holds iff \<open>a.x \<le> b.x\<close> and \<open>a.y \<le> b.y\<close>. It is reflexive and
  transitive, it is not total (neither of \<open>(1,2)\<close> and \<open>(2,1)\<close> is \<open><=\<close> the other),
  and \<open>a < b\<close> holds iff \<open>a <= b\<close> and \<open>a != b\<close>, where \<open>!=\<close> is inequality of
  the values.
\<close>

theorem dominance_order:
  fixes a b c :: "'a::preorder Vector" and p q r :: "'a Point"
  shows "(less_eq_Vector a b \<longleftrightarrow> Vector.x a \<le> Vector.x b \<and> Vector.y a \<le> Vector.y b) \<and>
         (less_eq_Point p q \<longleftrightarrow> Point.x p \<le> Point.x q \<and> Point.y p \<le> Point.y q) \<and>
         less_eq_Vector a a \<and> less_eq_Point p p \<and>
         (less_eq_Vector a b \<and> less_eq_Vector b c \<longrightarrow> less_eq_Vector a c) \<and>
         (less_eq_Point p q \<and> less_eq_Point q r \<longrightarrow> less_eq_Point p r) \<and>
         \<not> less_eq_Vector \<lparr>Vector.x = CInt 1, Vector.y = CInt 2\<rparr> \<lparr>Vector.x = CInt 2, Vector.y = CInt 1\<rparr> \<and>
         \<not> less_eq_Vector \<lparr>Vector.x = CInt 2, Vector.y = CInt 1\<rparr> \<lparr>Vector.x = CInt 1, Vector.y = CInt 2\<rparr> \<and>
         \<not> less_eq_Point \<lparr>Point.x = CInt 1, Point.y = CInt 2\<rparr> \<lparr>Point.x = CInt 2, Point.y = CInt 1\<rparr> \<and>
         \<not> less_eq_Point \<lparr>Point.x = CInt 2, Point.y = CInt 1\<rparr> \<lparr>Point.x = CInt 1, Point.y = CInt 2\<rparr> \<and>
         (less_Vector a b \<longleftrightarrow> less_eq_Vector a b \<and> neq_Vector a b) \<and>
         (less_Point p q \<longleftrightarrow> less_eq_Point p q \<and> neq_Point p q) \<and>
         (neq_Vector a b \<longleftrightarrow> a \<noteq> b) \<and> (neq_Point p q \<longleftrightarrow> p \<noteq> q)"
proof -
  have "\<not> less_eq_Vector \<lparr>Vector.x = CInt 1, Vector.y = CInt 2\<rparr> \<lparr>Vector.x = CInt 2, Vector.y = CInt 1\<rparr>"
       "\<not> less_eq_Vector \<lparr>Vector.x = CInt 2, Vector.y = CInt 1\<rparr> \<lparr>Vector.x = CInt 1, Vector.y = CInt 2\<rparr>"
    by (simp_all add: less_eq_Vector_def cint_simps)
  moreover have "\<not> less_eq_Point \<lparr>Point.x = CInt 1, Point.y = CInt 2\<rparr> \<lparr>Point.x = CInt 2, Point.y = CInt 1\<rparr>"
       "\<not> less_eq_Point \<lparr>Point.x = CInt 2, Point.y = CInt 1\<rparr> \<lparr>Point.x = CInt 1, Point.y = CInt 2\<rparr>"
    by (simp_all add: less_eq_Point_def cint_simps)
  moreover have "less_eq_Vector a b \<longleftrightarrow> Vector.x a \<le> Vector.x b \<and> Vector.y a \<le> Vector.y b"
    by (simp add: less_eq_Vector_def)
  moreover have "less_eq_Point p q \<longleftrightarrow> Point.x p \<le> Point.x q \<and> Point.y p \<le> Point.y q"
    by (simp add: less_eq_Point_def)
  moreover note less_eq_Vector_refl [of a] less_eq_Point_refl [of p]
    less_eq_Vector_trans [of a b c] less_eq_Point_trans [of p q r]
    less_Vector_def [of a b] less_Point_def [of p q]
    neq_Vector_iff [of a b] neq_Point_iff [of p q]
  ultimately show ?thesis by blast
qed

theorem dominance_order_witness:
  "less_eq_Vector \<lparr>Vector.x = CInt 1, Vector.y = CInt 2\<rparr> \<lparr>Vector.x = CInt 1, Vector.y = CInt 3\<rparr> \<and>
   less_eq_Vector \<lparr>Vector.x = CInt 1, Vector.y = CInt 3\<rparr> \<lparr>Vector.x = CInt 2, Vector.y = CInt 3\<rparr> \<and>
   less_eq_Vector \<lparr>Vector.x = CInt 1, Vector.y = CInt 2\<rparr> \<lparr>Vector.x = CInt 2, Vector.y = CInt 3\<rparr> \<and>
   less_eq_Point \<lparr>Point.x = CInt 1, Point.y = CInt 2\<rparr> \<lparr>Point.x = CInt 1, Point.y = CInt 3\<rparr> \<and>
   less_eq_Point \<lparr>Point.x = CInt 1, Point.y = CInt 3\<rparr> \<lparr>Point.x = CInt 2, Point.y = CInt 3\<rparr> \<and>
   less_eq_Point \<lparr>Point.x = CInt 1, Point.y = CInt 2\<rparr> \<lparr>Point.x = CInt 2, Point.y = CInt 3\<rparr> \<and>
   less_Vector \<lparr>Vector.x = CInt 1, Vector.y = CInt 2\<rparr> \<lparr>Vector.x = CInt 1, Vector.y = CInt 3\<rparr> \<and>
   less_Point \<lparr>Point.x = CInt 1, Point.y = CInt 2\<rparr> \<lparr>Point.x = CInt 1, Point.y = CInt 3\<rparr>"
proof -
  let ?a = "\<lparr>Vector.x = CInt 1, Vector.y = CInt 2\<rparr>"
  let ?b = "\<lparr>Vector.x = CInt 1, Vector.y = CInt 3\<rparr>"
  let ?c = "\<lparr>Vector.x = CInt 2, Vector.y = CInt 3\<rparr>"
  let ?p = "\<lparr>Point.x = CInt 1, Point.y = CInt 2\<rparr>"
  let ?q = "\<lparr>Point.x = CInt 1, Point.y = CInt 3\<rparr>"
  let ?r = "\<lparr>Point.x = CInt 2, Point.y = CInt 3\<rparr>"
  have ab: "less_eq_Vector ?a ?b" and bc: "less_eq_Vector ?b ?c"
    by (simp_all add: less_eq_Vector_def cint_simps)
  have pq: "less_eq_Point ?p ?q" and qr: "less_eq_Point ?q ?r"
    by (simp_all add: less_eq_Point_def cint_simps)
  have ne: "?a \<noteq> ?b" "?p \<noteq> ?q"
    by simp_all
  from dominance_order [where a = ?a and b = ?b and c = ?c and p = ?p and q = ?q and r = ?r]
    ab bc pq qr ne
  show ?thesis by blast
qed

section \<open>The order of \<^verbatim>\<open>std::less\<close>\<close>

lemma std_less_Vector_iff:
  fixes a b :: "'a::linorder Vector"
  shows "std_less_Vector a b \<longleftrightarrow>
         Vector.x a < Vector.x b \<or> (Vector.x a = Vector.x b \<and> Vector.y a < Vector.y b)"
  by (auto simp: std_less_Vector_def tuple_less_def)

lemma std_less_Point_iff:
  fixes a b :: "'a::linorder Point"
  shows "std_less_Point a b \<longleftrightarrow>
         Point.x a < Point.x b \<or> (Point.x a = Point.x b \<and> Point.y a < Point.y b)"
  by (auto simp: std_less_Point_def tuple_less_def)

lemma std_less_Vector_irrefl: "\<not> std_less_Vector a (a :: 'a::linorder Vector)"
  by (simp add: std_less_Vector_iff)

lemma std_less_Vector_trans:
  fixes a b c :: "'a::linorder Vector"
  shows "std_less_Vector a b \<Longrightarrow> std_less_Vector b c \<Longrightarrow> std_less_Vector a c"
  by (auto simp: std_less_Vector_iff)

lemma std_less_Vector_total:
  fixes a b :: "'a::linorder Vector"
  shows "a = b \<or> std_less_Vector a b \<or> std_less_Vector b a"
  by (cases a; cases b) (auto simp: std_less_Vector_iff)

lemma std_less_Point_irrefl: "\<not> std_less_Point a (a :: 'a::linorder Point)"
  by (simp add: std_less_Point_iff)

lemma std_less_Point_trans:
  fixes a b c :: "'a::linorder Point"
  shows "std_less_Point a b \<Longrightarrow> std_less_Point b c \<Longrightarrow> std_less_Point a c"
  by (auto simp: std_less_Point_iff)

lemma std_less_Point_total:
  fixes a b :: "'a::linorder Point"
  shows "a = b \<or> std_less_Point a b \<or> std_less_Point b a"
  by (cases a; cases b) (auto simp: std_less_Point_iff)

lemma sort_by_std_less_example:
  "sort_by std_less_Point
     [\<lparr>Point.x = CInt 2, Point.y = CInt 1\<rparr>, \<lparr>Point.x = CInt 1, Point.y = CInt 5\<rparr>,
      \<lparr>Point.x = CInt 1, Point.y = CInt 2\<rparr>] =
     [\<lparr>Point.x = CInt 1, Point.y = CInt 2\<rparr>, \<lparr>Point.x = CInt 1, Point.y = CInt 5\<rparr>,
      \<lparr>Point.x = CInt 2, Point.y = CInt 1\<rparr>]"
  by (simp add: std_less_Point_def tuple_less_def cint_simps)

lemma std_less_not_dominance:
  "std_less_Vector \<lparr>Vector.x = CInt 1, Vector.y = CInt 5\<rparr> \<lparr>Vector.x = CInt 2, Vector.y = CInt 1\<rparr> \<and>
   \<not> less_Vector \<lparr>Vector.x = CInt 1, Vector.y = CInt 5\<rparr> \<lparr>Vector.x = CInt 2, Vector.y = CInt 1\<rparr> \<and>
   std_less_Point \<lparr>Point.x = CInt 1, Point.y = CInt 5\<rparr> \<lparr>Point.x = CInt 2, Point.y = CInt 1\<rparr> \<and>
   \<not> less_Point \<lparr>Point.x = CInt 1, Point.y = CInt 5\<rparr> \<lparr>Point.x = CInt 2, Point.y = CInt 1\<rparr>"
  by (simp add: std_less_Vector_def std_less_Point_def tuple_less_def less_Vector_def
      less_Point_def less_eq_Vector_def less_eq_Point_def cint_simps)

lemma three_in_order_unique:
  assumes sets: "{a, b, c} = {p1, p2, p3}"
    and dist: "a \<noteq> b" "a \<noteq> c" "b \<noteq> c"
    and lt: "lt p3 p2" "lt p2 p1" "lt p3 p1"
    and sorted: "\<not> lt b a" "\<not> lt c a" "\<not> lt c b"
  shows "a = p3 \<and> b = p2 \<and> c = p1"
proof -
  from sets have mem: "a \<in> {p1, p2, p3}" "b \<in> {p1, p2, p3}" "c \<in> {p1, p2, p3}"
    and cov: "p1 \<in> {a, b, c}" "p2 \<in> {a, b, c}" "p3 \<in> {a, b, c}"
    by blast+
  from mem cov dist lt sorted show ?thesis
    by (simp) metis
qed


text \<open>Any arrangement of the three points that is in order is the one above.\<close>

lemma sorted_arrangement_unique:
  fixes ps :: "cint Point list"
  assumes perm: "mset ps = mset [\<lparr>Point.x = CInt 2, Point.y = CInt 1\<rparr>,
      \<lparr>Point.x = CInt 1, Point.y = CInt 5\<rparr>, \<lparr>Point.x = CInt 1, Point.y = CInt 2\<rparr>]"
    and ordered: "sorted_wrt (\<lambda>a b. \<not> std_less_Point b a) ps"
  shows "ps = [\<lparr>Point.x = CInt 1, Point.y = CInt 2\<rparr>, \<lparr>Point.x = CInt 1, Point.y = CInt 5\<rparr>,
      \<lparr>Point.x = CInt 2, Point.y = CInt 1\<rparr>]"
proof -
  define p1 :: "cint Point" where "p1 = \<lparr>Point.x = CInt 2, Point.y = CInt 1\<rparr>"
  define p2 :: "cint Point" where "p2 = \<lparr>Point.x = CInt 1, Point.y = CInt 5\<rparr>"
  define p3 :: "cint Point" where "p3 = \<lparr>Point.x = CInt 1, Point.y = CInt 2\<rparr>"
  have lt: "std_less_Point p3 p2" "std_less_Point p2 p1" "std_less_Point p3 p1"
    by (simp_all add: p1_def p2_def p3_def std_less_Point_def tuple_less_def cint_simps)
  have ne: "p1 \<noteq> p2" "p1 \<noteq> p3" "p2 \<noteq> p3"
    by (simp_all add: p1_def p2_def p3_def)
  from perm have m: "mset ps = mset [p1, p2, p3]"
    by (simp only: p1_def p2_def p3_def)
  then have "length ps = length [p1, p2, p3]"
    by (rule mset_eq_length)
  then obtain a b c where ps: "ps = [a, b, c]"
    by (auto simp: length_Suc_conv)
  from m have "set ps = set [p1, p2, p3]"
    by (rule mset_eq_setD)
  then have sets: "{a, b, c} = {p1, p2, p3}"
    by (simp add: ps)
  from m have "distinct ps \<longleftrightarrow> distinct [p1, p2, p3]"
    by (rule mset_eq_imp_distinct_iff)
  with ne have dist: "a \<noteq> b" "a \<noteq> c" "b \<noteq> c"
    by (simp_all add: ps)
  from ordered have sorted: "\<not> std_less_Point b a" "\<not> std_less_Point c a" "\<not> std_less_Point c b"
    by (simp_all add: ps)
  from three_in_order_unique [OF sets dist lt sorted]
  show ?thesis
    by (simp add: ps p1_def p2_def p3_def)
qed

text \<open>
  C8. The \<^verbatim>\<open>std::less\<close> specialisations for vectors and points compare \<open>x\<close>
  first and \<open>y\<close> on equal \<open>x\<close>. The comparison is a strict total order: irreflexive,
  transitive, and any two different values are ordered one way or the other.
  Sorting \<open>[(2,1), (1,5), (1,2)]\<close> with it gives \<open>[(1,2), (1,5), (2,1)]\<close>, and
  that is the only arrangement of the three points that is in order. It is not the
  dominance order: \<open>(1,5)\<close> is less than \<open>(2,1)\<close> for \<^verbatim>\<open>std::less\<close> and not for
  \<^verbatim>\<open>operator<\<close>.
\<close>

theorem std_less_strict_total_order:
  fixes a b c :: "'a::linorder Vector" and p q r :: "'a Point"
  shows "(std_less_Vector a b \<longleftrightarrow>
            Vector.x a < Vector.x b \<or> (Vector.x a = Vector.x b \<and> Vector.y a < Vector.y b)) \<and>
         (std_less_Point p q \<longleftrightarrow>
            Point.x p < Point.x q \<or> (Point.x p = Point.x q \<and> Point.y p < Point.y q)) \<and>
         \<not> std_less_Vector a a \<and> \<not> std_less_Point p p \<and>
         (std_less_Vector a b \<and> std_less_Vector b c \<longrightarrow> std_less_Vector a c) \<and>
         (std_less_Point p q \<and> std_less_Point q r \<longrightarrow> std_less_Point p r) \<and>
         (a = b \<or> std_less_Vector a b \<or> std_less_Vector b a) \<and>
         (p = q \<or> std_less_Point p q \<or> std_less_Point q p) \<and>
         sort_by std_less_Point
           [\<lparr>Point.x = CInt 2, Point.y = CInt 1\<rparr>, \<lparr>Point.x = CInt 1, Point.y = CInt 5\<rparr>,
            \<lparr>Point.x = CInt 1, Point.y = CInt 2\<rparr>] =
           [\<lparr>Point.x = CInt 1, Point.y = CInt 2\<rparr>, \<lparr>Point.x = CInt 1, Point.y = CInt 5\<rparr>,
            \<lparr>Point.x = CInt 2, Point.y = CInt 1\<rparr>] \<and>
         (\<forall>ps. mset ps = mset [\<lparr>Point.x = CInt 2, Point.y = CInt 1\<rparr>,
                  \<lparr>Point.x = CInt 1, Point.y = CInt 5\<rparr>, \<lparr>Point.x = CInt 1, Point.y = CInt 2\<rparr>] \<and>
               sorted_wrt (\<lambda>a b. \<not> std_less_Point b a) ps \<longrightarrow>
               ps = [\<lparr>Point.x = CInt 1, Point.y = CInt 2\<rparr>, \<lparr>Point.x = CInt 1, Point.y = CInt 5\<rparr>,
                     \<lparr>Point.x = CInt 2, Point.y = CInt 1\<rparr>]) \<and>
         std_less_Vector \<lparr>Vector.x = CInt 1, Vector.y = CInt 5\<rparr> \<lparr>Vector.x = CInt 2, Vector.y = CInt 1\<rparr> \<and>
         \<not> less_Vector \<lparr>Vector.x = CInt 1, Vector.y = CInt 5\<rparr> \<lparr>Vector.x = CInt 2, Vector.y = CInt 1\<rparr> \<and>
         std_less_Point \<lparr>Point.x = CInt 1, Point.y = CInt 5\<rparr> \<lparr>Point.x = CInt 2, Point.y = CInt 1\<rparr> \<and>
         \<not> less_Point \<lparr>Point.x = CInt 1, Point.y = CInt 5\<rparr> \<lparr>Point.x = CInt 2, Point.y = CInt 1\<rparr>"
proof -
  note std_less_Vector_iff [of a b] std_less_Point_iff [of p q]
    std_less_Vector_irrefl [of a] std_less_Point_irrefl [of p]
    std_less_Vector_trans [of a b c] std_less_Point_trans [of p q r]
    std_less_Vector_total [of a b] std_less_Point_total [of p q]
    sort_by_std_less_example std_less_not_dominance
  moreover have "\<forall>ps. mset ps = mset [\<lparr>Point.x = CInt 2, Point.y = CInt 1\<rparr>,
                  \<lparr>Point.x = CInt 1, Point.y = CInt 5\<rparr>, \<lparr>Point.x = CInt 1, Point.y = CInt 2\<rparr>] \<and>
               sorted_wrt (\<lambda>a b. \<not> std_less_Point b a) ps \<longrightarrow>
               ps = [\<lparr>Point.x = CInt 1, Point.y = CInt 2\<rparr>, \<lparr>Point.x = CInt 1, Point.y = CInt 5\<rparr>,
                     \<lparr>Point.x = CInt 2, Point.y = CInt 1\<rparr>]"
    using sorted_arrangement_unique by blast
  ultimately show ?thesis
    by blast
qed

theorem std_less_strict_total_order_witness:
  "std_less_Vector \<lparr>Vector.x = CInt 1, Vector.y = CInt 2\<rparr> \<lparr>Vector.x = CInt 1, Vector.y = CInt 5\<rparr> \<and>
   std_less_Vector \<lparr>Vector.x = CInt 1, Vector.y = CInt 5\<rparr> \<lparr>Vector.x = CInt 2, Vector.y = CInt 1\<rparr> \<and>
   std_less_Vector \<lparr>Vector.x = CInt 1, Vector.y = CInt 2\<rparr> \<lparr>Vector.x = CInt 2, Vector.y = CInt 1\<rparr> \<and>
   std_less_Point \<lparr>Point.x = CInt 1, Point.y = CInt 2\<rparr> \<lparr>Point.x = CInt 1, Point.y = CInt 5\<rparr> \<and>
   std_less_Point \<lparr>Point.x = CInt 1, Point.y = CInt 5\<rparr> \<lparr>Point.x = CInt 2, Point.y = CInt 1\<rparr> \<and>
   std_less_Point \<lparr>Point.x = CInt 1, Point.y = CInt 2\<rparr> \<lparr>Point.x = CInt 2, Point.y = CInt 1\<rparr> \<and>
   \<not> std_less_Vector \<lparr>Vector.x = CInt 1, Vector.y = CInt 5\<rparr> \<lparr>Vector.x = CInt 1, Vector.y = CInt 2\<rparr> \<and>
   mset [\<lparr>Point.x = CInt 1, Point.y = CInt 2\<rparr>, \<lparr>Point.x = CInt 1, Point.y = CInt 5\<rparr>,
         \<lparr>Point.x = CInt 2, Point.y = CInt 1\<rparr>] =
   mset [\<lparr>Point.x = CInt 2, Point.y = CInt 1\<rparr>, \<lparr>Point.x = CInt 1, Point.y = CInt 5\<rparr>,
         \<lparr>Point.x = CInt 1, Point.y = CInt 2\<rparr>] \<and>
   sorted_wrt (\<lambda>a b. \<not> std_less_Point b a)
     [\<lparr>Point.x = CInt 1, Point.y = CInt 2\<rparr>, \<lparr>Point.x = CInt 1, Point.y = CInt 5\<rparr>,
      \<lparr>Point.x = CInt 2, Point.y = CInt 1\<rparr>]"
proof -
  let ?a = "\<lparr>Vector.x = CInt 1, Vector.y = CInt 2\<rparr>"
  let ?b = "\<lparr>Vector.x = CInt 1, Vector.y = CInt 5\<rparr>"
  let ?c = "\<lparr>Vector.x = CInt 2, Vector.y = CInt 1\<rparr>"
  let ?p = "\<lparr>Point.x = CInt 1, Point.y = CInt 2\<rparr>"
  let ?q = "\<lparr>Point.x = CInt 1, Point.y = CInt 5\<rparr>"
  let ?r = "\<lparr>Point.x = CInt 2, Point.y = CInt 1\<rparr>"
  have ab: "std_less_Vector ?a ?b" and bc: "std_less_Vector ?b ?c"
    by (simp_all add: std_less_Vector_def tuple_less_def cint_simps)
  have pq: "std_less_Point ?p ?q" and qr: "std_less_Point ?q ?r"
    by (simp_all add: std_less_Point_def tuple_less_def cint_simps)
  have ba: "\<not> std_less_Vector ?b ?a"
    by (simp add: std_less_Vector_def tuple_less_def cint_simps)
  have perm: "mset [?p, ?q, ?r] = mset [?r, ?q, ?p]"
    by (simp add: add_mset_commute)
  have ordered: "sorted_wrt (\<lambda>a b. \<not> std_less_Point b a) [?p, ?q, ?r]"
    by (simp add: std_less_Point_def tuple_less_def cint_simps)
  note inst = std_less_strict_total_order
    [where a = ?a and b = ?b and c = ?c and p = ?p and q = ?q and r = ?r]
  from inst ab bc have ac: "std_less_Vector ?a ?c" by blast
  from inst pq qr have pr: "std_less_Point ?p ?r" by blast
  from inst perm ordered have "[?p, ?q, ?r] = [?p, ?q, ?r]" by blast
  with ab bc ac pq qr pr ba perm ordered show ?thesis
    by (simp only: simp_thms)
qed

section \<open>Indexed access\<close>

lemma subscript_Vector_in_range:
  "idx < 2 \<Longrightarrow> subscript_Vector v idx = Inr (if idx = 0 then Vector.x v else Vector.y v)"
  by (cases idx) (auto simp: subscript_Vector_def ptrs_Vector_def)

lemma subscript_Point_in_range:
  "idx < 2 \<Longrightarrow> subscript_Point p idx = Inr (if idx = 0 then Point.x p else Point.y p)"
  by (cases idx) (auto simp: subscript_Point_def ptrs_Point_def)

text \<open>
  In the body of \<^verbatim>\<open>operator[]\<close>, index 0 reads \<open>x\<close> and index 1 reads \<open>y\<close>; with
  \<open>idx < 2\<close> the assertion does not fire, and with any other index it fails.
\<close>

lemma subscript_body_total:
  "subscript_Vector v 0 = Inr (Vector.x v) \<and> subscript_Vector v 1 = Inr (Vector.y v) \<and>
   subscript_Point p 0 = Inr (Point.x p) \<and> subscript_Point p 1 = Inr (Point.y p) \<and>
   (idx < 2 \<longrightarrow> subscript_Vector v idx \<in> {Inr (Vector.x v), Inr (Vector.y v)} \<and>
                subscript_Point p idx \<in> {Inr (Point.x p), Inr (Point.y p)}) \<and>
   (\<not> idx < 2 \<longrightarrow> subscript_Vector v idx = Inl AssertionFailed \<and>
                  subscript_Point p idx = Inl AssertionFailed)"
proof -
  have "subscript_Vector v 0 = Inr (Vector.x v)" "subscript_Vector v 1 = Inr (Vector.y v)"
    by (simp_all add: subscript_Vector_def ptrs_Vector_def)
  moreover have "subscript_Point p 0 = Inr (Point.x p)" "subscript_Point p 1 = Inr (Point.y p)"
    by (simp_all add: subscript_Point_def ptrs_Point_def)
  moreover have "idx < 2 \<longrightarrow> subscript_Vector v idx \<in> {Inr (Vector.x v), Inr (Vector.y v)}"
    by (simp add: subscript_Vector_in_range)
  moreover have "idx < 2 \<longrightarrow> subscript_Point p idx \<in> {Inr (Point.x p), Inr (Point.y p)}"
    by (simp add: subscript_Point_in_range)
  moreover have "\<not> idx < 2 \<longrightarrow> subscript_Vector v idx = Inl AssertionFailed"
    by (simp add: subscript_Vector_def)
  moreover have "\<not> idx < 2 \<longrightarrow> subscript_Point p idx = Inl AssertionFailed"
    by (simp add: subscript_Point_def)
  ultimately show ?thesis by blast
qed

lemma subscript_well_formed_iff: "subscript_well_formed ov \<longleftrightarrow> ov = Const_overload"
  by (cases ov)
    (simp_all add: subscript_well_formed_def binds_def return_cv_def this_cv_def
      member_access_cv_def ptrs_member_cv_def)

text \<open>
  C9. Indexed access reads \<open>v[0] == v.x\<close> and \<open>v[1] == v.y\<close> only for a \<^verbatim>\<open>const\<close>
  vector or point. For an object that is not \<^verbatim>\<open>const\<close> the expression \<open>v[0]\<close> calls
  the non-\<^verbatim>\<open>const\<close> overload, which returns the \<^verbatim>\<open>const T\<close> lvalue
  \<^verbatim>\<open>this->*ptrs[idx]\<close> as a \<^verbatim>\<open>T&\<close> and is ill-formed: there is no access at all.
\<close>

theorem subscript_non_const_ill_formed:
  "subscript_call_Vector Mutable \<lparr>Vector.x = CInt 7, Vector.y = CInt 9\<rparr> 0 = Ill_formed \<and>
   subscript_call_Point Mutable \<lparr>Point.x = CInt 7, Point.y = CInt 9\<rparr> 0 = Ill_formed \<and>
   subscript_call_Vector Const \<lparr>Vector.x = CInt 7, Vector.y = CInt 9\<rparr> 0 =
     Well_formed (Inr (CInt 7)) \<and>
   subscript_call_Point Const \<lparr>Point.x = CInt 7, Point.y = CInt 9\<rparr> 0 =
     Well_formed (Inr (CInt 7))"
  by (simp add: subscript_call_Vector_def subscript_call_Point_def subscript_well_formed_iff
      overload_for_def subscript_Vector_def subscript_Point_def ptrs_Vector_def ptrs_Point_def)

section \<open>Length\<close>

lemma isqrt_bounds: "isqrt n * isqrt n \<le> n \<and> n < Suc (isqrt n) * Suc (isqrt n)"
proof (induction n)
  case 0
  show ?case by simp
next
  case (Suc n)
  then show ?case
    by (auto simp: Let_def)
qed



lemma isqrt_eq_0_iff: "isqrt n = 0 \<longleftrightarrow> n = 0"
proof
  assume "isqrt n = 0"
  with isqrt_bounds [of n] show "n = 0" by simp
next
  assume "n = 0"
  then show "isqrt n = 0" by simp
qed

text \<open>A natural number below \<open>2\<^sup>5\<^sup>3\<close> is a \<^verbatim>\<open>double\<close>.\<close>

lemma fl_of_nat:
  assumes "n < 2 ^ 53"
  shows "fl (real n) = Finite (real n)"
proof (cases "n = 0")
  case True
  then show ?thesis by simp
next
  case False
  define r where "r = real n"
  define k where "k = \<lfloor>log 2 \<bar>r\<bar>\<rfloor>"
  from False have nonzero: "r \<noteq> 0" and one: "1 \<le> r"
    by (simp_all add: r_def)
  then have abs: "\<bar>r\<bar> = r"
    by simp
  from floor_log2_bounds [OF nonzero] have k: "pow2 k \<le> r" "r < pow2 (k + 1)"
    by (simp_all add: k_def abs)
  have "pow2 0 < pow2 (k + 1)"
    using one k(2) by simp
  then have "0 < k + 1"
    by (rule pow2_less_imp)
  then have k_lower: "0 \<le> k"
    by simp
  have "real n < real (2 ^ 53)"
    using assms by (simp only: of_nat_less_iff)
  then have r_upper: "r < pow2 53"
    by (simp add: r_def)
  with k(1) have "pow2 k < pow2 53"
    by linarith
  then have k_upper: "k < 53"
    by (rule pow2_less_imp)
  define j where "j = nat (52 - k)"
  have j: "int j = 52 - k"
    using k_upper by (simp add: j_def)
  have "pow2 (int j) * pow2 (k - 52) = pow2 (int j + (k - 52))"
    by (simp only: pow2_add)
  also have "\<dots> = 1"
    by (simp add: j)
  finally have unit: "2 ^ j * pow2 (k - 52) = 1"
    by (simp only: pow2_nat)
  then have inverse: "r / pow2 (k - 52) = r * 2 ^ j"
    using pow2_neq_0 [of "k - 52"] by (simp add: field_simps)
  have scaled: "r / pow2 (k - 52) = of_int (int n * 2 ^ j)"
    unfolding inverse by (simp add: r_def)
  have round: "round_ties_even (r / pow2 (k - 52)) = int n * 2 ^ j"
    unfolding scaled by (rule round_ties_even_of_int)
  have "of_int (int n * 2 ^ j) * pow2 (k - 52) = r * (2 ^ j * pow2 (k - 52))"
    by (simp add: r_def)
  then have restored: "of_int (int n * 2 ^ j) * pow2 (k - 52) = r"
    by (simp only: unit mult_1_right)
  have e: "k - 52 = max k (- 1022) - 52"
    using k_lower by simp
  have "\<bar>r\<bar> < 2 ^ 1024"
    using r_upper abs by simp
  then have bounded: "\<bar>of_int (int n * 2 ^ j) * pow2 (k - 52)\<bar> < 2 ^ 1024"
    by (simp only: restored)
  have "pow2 k \<le> \<bar>r\<bar>" and "\<bar>r\<bar> < pow2 (k + 1)"
    using k by (simp_all only: abs)
  then have "fl r = Finite (of_int (int n * 2 ^ j) * pow2 (k - 52))"
    using e round bounded by (rule fl_eval)
  then show ?thesis
    by (simp only: restored r_def)
qed

text \<open>
  The square root of a natural number below \<open>2\<^sup>3\<^sup>2\<close>, taken in \<^verbatim>\<open>double\<close>, has the integer
  part of the real square root.
\<close>

lemma floor_sqrt_double:
  assumes "n < 2 ^ 32"
  shows "\<exists>s. sqrt_double (fl (real n)) = Finite s \<and> \<lfloor>s\<rfloor> = int (isqrt n)"
proof -
  define r where "r = sqrt (real n)"
  define m where "m = isqrt n"
  define M where "M = real m"
  have "n < 2 ^ 53"
    using assms by simp
  then have exact: "fl (real n) = Finite (real n)"
    by (rule fl_of_nat)
  have root: "sqrt_double (fl (real n)) = fl r"
    by (simp add: exact r_def)
  from isqrt_bounds [of n] have m: "m * m \<le> n" "n < Suc m * Suc m"
    by (simp_all add: m_def)
  have m_upper: "m < 2 ^ 16"
  proof (rule ccontr)
    assume "\<not> m < 2 ^ 16"
    then have "2 ^ 16 \<le> m"
      by simp
    then have "2 ^ 16 * 2 ^ 16 \<le> m * m"
      by (intro mult_le_mono)
    with m(1) assms show False
      by simp
  qed
  then have "Suc m \<le> 2 ^ 16"
    by simp
  then have "real (Suc m) \<le> real (2 ^ 16)"
    by (simp only: of_nat_le_iff)
  then have M_upper: "M + 1 \<le> 2 ^ 16"
    by (simp add: M_def)
  have M_nonneg: "0 \<le> M"
    by (simp add: M_def)
  have r_nonneg: "0 \<le> r"
    by (simp add: r_def)
  have square: "r * r = real n"
    by (simp add: r_def)
  have "real (m * m) \<le> real n"
    using m(1) by (simp only: of_nat_le_iff)
  then have lower_square: "M * M \<le> real n"
    by (simp add: M_def)
  have "Suc n \<le> Suc m * Suc m"
    using m(2) by simp
  then have "real (Suc n) \<le> real (Suc m * Suc m)"
    by (simp only: of_nat_le_iff)
  then have upper_square: "real n + 1 \<le> (M + 1) * (M + 1)"
    by (simp add: M_def algebra_simps)
  have "M\<^sup>2 \<le> real n"
    using lower_square by (simp only: power2_eq_square)
  then have lower: "M \<le> r"
    unfolding r_def by (rule real_le_rsqrt)
  have "real n < (M + 1)\<^sup>2"
    using upper_square unfolding power2_eq_square by linarith
  moreover have "0 \<le> M + 1"
    using M_nonneg by simp
  ultimately have upper: "r < M + 1"
    unfolding r_def by (intro real_less_lsqrt)
  have gap_upper: "1 / 2 ^ 17 \<le> M + 1 - r"
  proof (rule ccontr)
    assume "\<not> 1 / 2 ^ 17 \<le> M + 1 - r"
    then have small: "M + 1 - r < 1 / 2 ^ 17"
      by simp
    have "M + 1 + r \<le> 2 ^ 17"
      using upper M_upper by simp
    moreover have "0 \<le> M + 1 - r"
      using upper by simp
    ultimately have "(M + 1 - r) * (M + 1 + r) \<le> (M + 1 - r) * 2 ^ 17"
      by (rule mult_left_mono)
    also have "\<dots> < 1 / 2 ^ 17 * 2 ^ 17"
      using small by (rule mult_strict_right_mono) simp
    finally have "(M + 1 - r) * (M + 1 + r) < 1"
      by simp
    moreover have "(M + 1 - r) * (M + 1 + r) = (M + 1) * (M + 1) - r * r"
      by (simp only: algebra_simps)
    ultimately show False
      using upper_square square by linarith
  qed
  have gap_lower: "1 / 2 ^ 17 \<le> r - M" if "M \<noteq> r"
  proof (rule ccontr)
    assume "\<not> 1 / 2 ^ 17 \<le> r - M"
    then have small: "r - M < 1 / 2 ^ 17"
      by simp
    have "M\<^sup>2 \<noteq> r\<^sup>2"
      using that by (simp only: power2_eq_iff_nonneg [OF M_nonneg r_nonneg] not_False_eq_True)
    then have "real (m * m) \<noteq> real n"
      by (simp add: M_def power2_eq_square square)
    then have "m * m \<noteq> n"
      by (simp only: of_nat_eq_iff not_False_eq_True)
    with m(1) have "Suc (m * m) \<le> n"
      by simp
    then have "real (Suc (m * m)) \<le> real n"
      by (simp only: of_nat_le_iff)
    then have apart: "M * M + 1 \<le> real n"
      by (simp add: M_def)
    have "r + M \<le> 2 ^ 17"
      using upper M_upper by simp
    moreover have "0 \<le> r - M"
      using lower by simp
    ultimately have "(r - M) * (r + M) \<le> (r - M) * 2 ^ 17"
      by (rule mult_left_mono)
    also have "\<dots> < 1 / 2 ^ 17 * 2 ^ 17"
      using small by (rule mult_strict_right_mono) simp
    finally have "(r - M) * (r + M) < 1"
      by simp
    moreover have "(r - M) * (r + M) = r * r - M * M"
      by (simp only: algebra_simps)
    ultimately show False
      using apart square by linarith
  qed
  show ?thesis
  proof (cases "M = r")
    case True
    have "m < 2 ^ 53"
      using m_upper by simp
    then have "fl (real m) = Finite (real m)"
      by (rule fl_of_nat)
    then have "fl r = Finite M"
      by (simp only: True [symmetric] M_def [symmetric])
    moreover have "\<lfloor>M\<rfloor> = int m"
      by (simp add: M_def)
    ultimately show ?thesis
      unfolding root m_def [symmetric] by blast
  next
    case False
    from gap_lower [OF False] M_nonneg have "1 / 2 ^ 17 \<le> r"
      by linarith
    then have "0 < r"
      by (rule less_le_trans [rotated]) simp
    then have "0 < n"
      by (simp add: r_def)
    then have "1 \<le> real n"
      by simp
    then have one: "1 \<le> r"
      by (simp add: r_def)
    have "r \<le> 2 ^ 16"
      using upper M_upper by linarith
    then have "pow2 0 \<le> \<bar>r\<bar>" and "\<bar>r\<bar> \<le> pow2 16"
      using one by simp_all
    then have "normal_range r"
      by (rule normal_range_band) simp_all
    from fl_relative_error [OF this] obtain d
      where d: "\<bar>d\<bar> \<le> pow2 (- 53)" and fl: "fl r = Finite (r * (1 + d))"
      by blast
    have "\<bar>r\<bar> * \<bar>d\<bar> \<le> 2 ^ 16 * pow2 (- 53)"
      using \<open>r \<le> 2 ^ 16\<close> r_nonneg d by (intro mult_mono) simp_all
    then have error: "\<bar>r * d\<bar> \<le> 1 / 2 ^ 37"
      by (simp add: abs_mult)
    have "r * (1 + d) = r + r * d"
      by (simp only: distrib_left mult_1_right)
    moreover have "(1 :: real) / 2 ^ 37 < 1 / 2 ^ 17"
      by simp
    ultimately have "M \<le> r * (1 + d)" and "r * (1 + d) < M + 1"
      using error gap_lower [OF False] gap_upper by linarith+
    then have "of_int (int m) \<le> r * (1 + d)" and "r * (1 + d) < of_int (int m) + 1"
      by (simp_all add: M_def)
    then have "\<lfloor>r * (1 + d)\<rfloor> = int m"
      by (rule floor_unique)
    with fl show ?thesis
      unfolding root m_def [symmetric] by blast
  qed
qed

text \<open>
  So \<open>sqrt_unsigned\<close> and \<open>sqrt_int\<close> are what the source computes: the conversion of the
  argument to \<^verbatim>\<open>double\<close>, the root taken there, and the integer part of the result.
\<close>

lemma sqrt_unsigned_via_double:
  fixes u :: unsigned
  shows "\<exists>s. sqrt_double (fl (real (unat u))) = Finite s \<and> sqrt_unsigned u = of_int \<lfloor>s\<rfloor>"
proof -
  have "unat u < 2 ^ 32"
    using unsigned_less [of u, where 'a = nat] by simp
  from floor_sqrt_double [OF this] obtain s
    where "sqrt_double (fl (real (unat u))) = Finite s" and "\<lfloor>s\<rfloor> = int (isqrt (unat u))"
    by blast
  then show ?thesis
    by (auto simp add: sqrt_unsigned_def)
qed

lemma sqrt_int_via_double:
  assumes "0 \<le> i" and "int_range i"
  shows "\<exists>s. sqrt_double (fl (real_of_int i)) = Finite s \<and> sqrt_int (CInt i) = CInt \<lfloor>s\<rfloor>"
proof -
  have "nat i < 2 ^ 32"
    using assms by (simp add: int_range_def nat_less_iff)
  from floor_sqrt_double [OF this] obtain s
    where "sqrt_double (fl (real (nat i))) = Finite s" and "\<lfloor>s\<rfloor> = int (isqrt (nat i))"
    by blast
  then show ?thesis
    using assms(1) by auto
qed










lemma length_int_overflow:
  "length_Vector sqrt_int \<lparr>Vector.x = CInt 46341, Vector.y = CInt 0\<rparr> = Undefined"
  by (simp add: length_Vector_def cint_simps)




text \<open>
  The length of a vector of \<^verbatim>\<open>double\<close> whose squares neither overflow nor underflow: three
  roundings of a sum of squares and one of the root.
\<close>

lemma length_double_near:
  assumes k: "0 \<le> k" "k \<le> 505"
    and a: "magnitude_within k a" and b: "magnitude_within k b"
    and nonzero: "a \<noteq> 0 \<or> b \<noteq> 0"
  shows "\<exists>l. length_Vector sqrt_double \<lparr>Vector.x = Finite a, Vector.y = Finite b\<rparr> = Finite l \<and>
           near 2 l (sqrt (a * a + b * b)) \<and> 0 < l"
proof -
  let ?N = "a * a + b * b"
  from square_rounded [OF k a] obtain sa
    where sa: "fl (a * a) = Finite sa" "near 1 sa (a * a)" "0 \<le> sa" .
  from square_rounded [OF k b] obtain sb
    where sb: "fl (b * b) = Finite sb" "near 1 sb (b * b)" "0 \<le> sb" .
  have upper_a: "a * a \<le> pow2 (2 * k)"
    using a square_band(2) [of k a] by (cases "a = 0") (simp_all add: magnitude_within_def)
  have upper_b: "b * b \<le> pow2 (2 * k)"
    using b square_band(2) [of k b] by (cases "b = 0") (simp_all add: magnitude_within_def)
  have lower_a: "a \<noteq> 0 \<Longrightarrow> pow2 (- (2 * k)) \<le> a * a"
    using a square_band(1) [of k a] by (simp add: magnitude_within_def)
  have lower_b: "b \<noteq> 0 \<Longrightarrow> pow2 (- (2 * k)) \<le> b * b"
    using b square_band(1) [of k b] by (simp add: magnitude_within_def)
  have nonneg: "0 \<le> a * a" "0 \<le> b * b"
    by simp_all
  have lower: "pow2 (- (2 * k)) \<le> ?N"
    using nonzero lower_a lower_b nonneg by linarith
  have "?N \<le> 2 * pow2 (2 * k)"
    using upper_a upper_b by linarith
  then have upper: "?N \<le> pow2 (2 * k + 1)"
    by (simp only: pow2_double)
  have N_pos: "0 < ?N"
    using lower pow2_pos [of "- (2 * k)"] by linarith
  have sum: "near 1 (sa + sb) ?N"
    using sa(2) sb(2) by (rule near_add)
  from near_band [OF sum _ lower upper]
  have "pow2 (- (2 * k) - 1) \<le> sa + sb" and "sa + sb \<le> pow2 (2 * k + 1 + 1)"
    by simp_all
  then have "pow2 (- (2 * k) - 1) \<le> \<bar>sa + sb\<bar>" and "\<bar>sa + sb\<bar> \<le> pow2 (2 * k + 1 + 1)"
    using sa(3) sb(3) by simp_all
  then have "normal_range (sa + sb)"
    by (rule normal_range_band) (use k in simp_all)
  moreover have "0 \<le> sa + sb"
    using sa(3) sb(3) by simp
  ultimately obtain s where s: "fl (sa + sb) = Finite s" "near 1 s (sa + sb)" "0 \<le> s"
    by (rule fl_near_nonneg)
  from s(2) sum have s_near: "near 2 s ?N"
    by (rule near_trans_eq) simp
  then have root: "near 1 (sqrt s) (sqrt ?N)"
    by (rule near_sqrt_eq) (use N_pos in simp_all)
  have "pow2 (2 * (- k)) \<le> ?N"
    using lower by simp
  then have "sqrt (pow2 (2 * (- k))) \<le> sqrt ?N"
    by (simp only: real_sqrt_le_iff)
  then have root_lower: "pow2 (- k) \<le> sqrt ?N"
    by (simp only: sqrt_pow2)
  have "pow2 (2 * k + 1) \<le> pow2 (2 * (k + 1))"
    by (rule pow2_mono) simp
  with upper have "?N \<le> pow2 (2 * (k + 1))"
    by linarith
  then have "sqrt ?N \<le> sqrt (pow2 (2 * (k + 1)))"
    by (simp only: real_sqrt_le_iff)
  then have root_upper: "sqrt ?N \<le> pow2 (k + 1)"
    by (simp only: sqrt_pow2)
  from near_band [OF root _ root_lower root_upper]
  have "pow2 (- k - 1) \<le> sqrt s" and "sqrt s \<le> pow2 (k + 1 + 1)"
    by simp_all
  then have "pow2 (- k - 1) \<le> \<bar>sqrt s\<bar>" and "\<bar>sqrt s\<bar> \<le> pow2 (k + 1 + 1)"
    using s(3) by simp_all
  then have "normal_range (sqrt s)"
    by (rule normal_range_band) (use k in simp_all)
  moreover have "0 \<le> sqrt s"
    using s(3) by simp
  ultimately obtain l where l: "fl (sqrt s) = Finite l" "near 1 l (sqrt s)" "0 \<le> l"
    by (rule fl_near_nonneg)
  from l(2) root have l_near: "near 2 l (sqrt ?N)"
    by (rule near_trans_eq) simp
  have "0 < sqrt ?N"
    using N_pos by simp
  with l_near have "0 < l"
    by (rule near_pos)
  moreover have "length_Vector sqrt_double \<lparr>Vector.x = Finite a, Vector.y = Finite b\<rparr> = Finite l"
    using sa(1) sb(1) s(1,3) l(1) by (simp add: length_Vector_def)
  ultimately show ?thesis
    using l_near by blast
qed


text \<open>
  With components that are zero or of magnitude between \<open>2\<^sup>-\<^sup>5\<^sup>0\<^sup>5\<close> and \<open>2\<^sup>5\<^sup>0\<^sup>5\<close>, the
  length computed in \<^verbatim>\<open>double\<close> is within the relative error \<open>2\<^sup>-\<^sup>5\<^sup>1\<close> of the square root of
  the sum of the squares.
\<close>

lemma length_double_zero:
  "length_Vector sqrt_double \<lparr>Vector.x = Finite 0, Vector.y = Finite 0\<rparr> = Finite 0"
  by (simp add: length_Vector_def)




section \<open>Normalization\<close>

lemma normalized_Inr:
  "normalized sqrtT v =
     Inr (if length_Vector sqrtT v = 0 then Vector_default
          else \<lparr>Vector.x = Vector.x v div length_Vector sqrtT v,
                Vector.y = Vector.y v div length_Vector sqrtT v\<rparr>)"
  by (simp add: normalized_def divide_Vector_def Let_def)

lemma fl_millionth: "fl (1 / 1000000) = Finite (4722366482869645 / 2 ^ 72)"
  using fl_eval_round [of "- 20" "1 / 1000000" 4722366482869645] by simp

lemma fl_millionth_squared:
  "fl (4722366482869645 / 2 ^ 72 * (4722366482869645 / 2 ^ 72)) =
     Finite (4951760157141521 / 2 ^ 92)"
  using fl_eval_round [of "- 40" "4722366482869645 / 2 ^ 72 * (4722366482869645 / 2 ^ 72)"
      4951760157141521]
  by simp

lemma fl_millionth_squared_exact:
  "fl (4951760157141521 / 2 ^ 92) = Finite (4951760157141521 / 2 ^ 92)"
  using fl_eval_round [of "- 40" "4951760157141521 / 2 ^ 92" 4951760157141521] by simp

lemma fl_sqrt_millionth_squared:
  "fl (sqrt (4951760157141521 / 2 ^ 92)) = Finite (4722366482869645 / 2 ^ 72)"
proof -
  let ?s = "sqrt (4951760157141521 / 2 ^ 92) :: real"
  have lo: "1 / 2 ^ 20 \<le> ?s"
    by (rule real_le_rsqrt) (simp add: power2_eq_square)
  have hi: "?s < 1 / 2 ^ 19"
    by (rule real_less_lsqrt) (simp_all add: power2_eq_square)
  have below: "(4722366482869645 - 1 / 2) / 2 ^ 72 < ?s"
    by (rule real_less_rsqrt) (simp add: power2_eq_square)
  have above: "?s < (4722366482869645 + 1 / 2) / 2 ^ 72"
    by (rule real_less_lsqrt) (simp_all add: power2_eq_square)
  from lo have pos: "0 \<le> ?s" by simp
  show ?thesis
    using fl_eval_round [of "- 20" ?s 4722366482869645] lo hi below above
    by (simp del: real_sqrt_ge_0_iff real_sqrt_lt_0_iff)
qed

lemma normalized_tiny:
  "normalized sqrt_double \<lparr>Vector.x = fl (1 / 1000000), Vector.y = Finite 0\<rparr> =
     Inr \<lparr>Vector.x = Finite 1, Vector.y = Finite 0\<rparr>"
proof -
  define a :: real where "a = 4722366482869645 / 2 ^ 72"
  define b :: real where "b = 4951760157141521 / 2 ^ 92"
  have x: "fl (1 / 1000000) = Finite a"
    unfolding a_def by (rule fl_millionth)
  have square: "fl (a * a) = Finite b"
    unfolding a_def b_def by (rule fl_millionth_squared)
  have sum: "fl b = Finite b"
    unfolding b_def by (rule fl_millionth_squared_exact)
  have root: "fl (sqrt b) = Finite a"
    unfolding a_def b_def by (rule fl_sqrt_millionth_squared)
  have signs: "a \<noteq> 0" "\<not> b < 0"
    by (simp_all add: a_def b_def)
  have "length_Vector sqrt_double \<lparr>Vector.x = Finite a, Vector.y = Finite 0\<rparr> = Finite a"
    by (simp add: length_Vector_def square sum root signs)
  then show ?thesis
    using signs by (simp add: normalized_Inr x zero_double_def)
qed

text \<open>
  C2. For every vector \<open>v\<close> and every element type, \<open>normalized(v)\<close> is the zero
  vector when \<open>length(v) == 0\<close> and \<open>v / length(v)\<close> otherwise. The test is exact
  equality with zero: the vector \<open>(0.000001, 0)\<close> has a non-zero length and is
  scaled to \<open>(1, 0)\<close>. The division happens only with a non-zero length, so
  \<open>normalized\<close> never divides by zero.
\<close>

theorem normalized_guards_division:
  fixes v :: "'a::{plus,times,divide,zero} Vector"
  shows "normalized sqrtT v =
           (if length_Vector sqrtT v = 0 then Inr Vector_default
            else divide_Vector v (length_Vector sqrtT v)) \<and>
         normalized sqrtT v =
           Inr (if length_Vector sqrtT v = 0 then \<lparr>Vector.x = 0, Vector.y = 0\<rparr>
                else \<lparr>Vector.x = Vector.x v div length_Vector sqrtT v,
                      Vector.y = Vector.y v div length_Vector sqrtT v\<rparr>) \<and>
         normalized sqrtT v \<noteq> Inl DivisionByZero \<and>
         normalized sqrt_double \<lparr>Vector.x = fl (1 / 1000000), Vector.y = Finite 0\<rparr> =
           Inr \<lparr>Vector.x = Finite 1, Vector.y = Finite 0\<rparr>"
proof -
  have "normalized sqrtT v =
           (if length_Vector sqrtT v = 0 then Inr Vector_default
            else divide_Vector v (length_Vector sqrtT v))"
    by (simp add: normalized_def Let_def)
  moreover have "normalized sqrtT v =
           Inr (if length_Vector sqrtT v = 0 then \<lparr>Vector.x = 0, Vector.y = 0\<rparr>
                else \<lparr>Vector.x = Vector.x v div length_Vector sqrtT v,
                      Vector.y = Vector.y v div length_Vector sqrtT v\<rparr>)"
    by (simp add: normalized_Inr Vector_default_def)
  moreover have "normalized sqrtT v \<noteq> Inl DivisionByZero"
    by (simp add: normalized_Inr)
  ultimately show ?thesis
    using normalized_tiny by simp
qed

subsection \<open>The length of the normalized vector\<close>

text \<open>
  A vector of \<^verbatim>\<open>double\<close> that is not the zero vector, with components that are zero or
  of magnitude between \<open>2\<^sup>-\<^sup>2\<^sup>5\<^sup>0\<close> and \<open>2\<^sup>2\<^sup>5\<^sup>0\<close>: no operation of \<^verbatim>\<open>length\<close>, of the division
  by the length, or of the \<^verbatim>\<open>length\<close> of the quotient leaves the normal range, and the ten
  roundings on the way leave the result within five roundings of 1.
\<close>

lemma quotient_rounded:
  assumes l: "near 2 l N" and N: "0 < N"
    and lower: "a = 0 \<or> pow2 (- 501) \<le> \<bar>a\<bar> / N" and upper: "\<bar>a\<bar> / N \<le> 1"
  obtains c where "Finite a div Finite l = Finite c" and "near 3 \<bar>c\<bar> (\<bar>a\<bar> / N)"
    and "magnitude_within 502 c" and "a \<noteq> 0 \<longrightarrow> c \<noteq> 0"
proof (cases "a = 0")
  case True
  from l N have "0 < l"
    by (rule near_pos)
  with True have "Finite a div Finite l = Finite 0" and "near 3 \<bar>0::real\<bar> (\<bar>a\<bar> / N)"
    and "magnitude_within 502 0" and "a \<noteq> 0 \<longrightarrow> (0::real) \<noteq> 0"
    by (simp_all add: near_def magnitude_within_def)
  then show thesis
    by (rule that)
next
  case False
  from l N have l_pos: "0 < l"
    by (rule near_pos)
  have "near 0 \<bar>a\<bar> \<bar>a\<bar>"
    by (rule near_refl)
  then have quotient: "near 2 (\<bar>a\<bar> / l) (\<bar>a\<bar> / N)"
    using l by (rule near_divide_eq) (use N in simp_all)
  from False lower have lower': "pow2 (- 501) \<le> \<bar>a\<bar> / N"
    by simp
  from upper have upper': "\<bar>a\<bar> / N \<le> pow2 0"
    by simp
  from near_band [OF quotient _ lower' upper']
  have "pow2 (- 501 - 1) \<le> \<bar>a\<bar> / l" and "\<bar>a\<bar> / l \<le> pow2 (0 + 1)"
    by simp_all
  moreover have abs: "\<bar>a / l\<bar> = \<bar>a\<bar> / l"
    using l_pos by simp
  ultimately have "pow2 (- 501 - 1) \<le> \<bar>a / l\<bar>" and "\<bar>a / l\<bar> \<le> pow2 (0 + 1)"
    by (simp_all only:)
  then have "normal_range (a / l)"
    by (rule normal_range_band) simp_all
  from fl_near [OF this] obtain c where c: "fl (a / l) = Finite c" "near 1 \<bar>c\<bar> \<bar>a / l\<bar>"
    by blast
  from c(2) have "near 1 \<bar>c\<bar> (\<bar>a\<bar> / l)"
    by (simp only: abs)
  then have c_near: "near 3 \<bar>c\<bar> (\<bar>a\<bar> / N)"
    using quotient by (rule near_trans_eq) simp
  from near_band [OF c_near _ lower' upper']
  have band: "pow2 (- 501 - 1) \<le> \<bar>c\<bar>" "\<bar>c\<bar> \<le> pow2 (0 + 1)"
    by simp_all
  have "pow2 (0 + 1) \<le> pow2 502"
    by (rule pow2_mono) simp
  with band have "pow2 (- 502) \<le> \<bar>c\<bar> \<and> \<bar>c\<bar> \<le> pow2 502"
    by simp
  then have within: "magnitude_within 502 c"
    unfolding magnitude_within_def by (rule disjI2)
  have "0 < \<bar>c\<bar>"
    using band(1) pow2_pos [of "- 501 - 1"] by linarith
  then have "a \<noteq> 0 \<longrightarrow> c \<noteq> 0"
    by simp
  moreover have "Finite a div Finite l = Finite c"
    using c(1) l_pos by simp
  ultimately show thesis
    using c_near within that by blast
qed

lemma near_1_bound:
  assumes "near 5 L 1"
  shows "\<bar>L - 1\<bar> \<le> pow2 (- 50)"
proof -
  let ?q = "(1 - unit_roundoff) ^ 5"
  from assms have 1: "?q \<le> L" and 2: "L * ?q \<le> 1"
    by (simp_all add: near_def)
  have "1 - pow2 (- 50) \<le> ?q"
    by (simp add: unit_roundoff_def power_divide)
  with 1 have lower: "1 - pow2 (- 50) \<le> L"
    by linarith
  have "1 \<le> (1 + pow2 (- 50)) * ?q"
    by (simp add: unit_roundoff_def power_divide)
  with 2 have "L * ?q \<le> (1 + pow2 (- 50)) * ?q"
    by linarith
  then have "L \<le> 1 + pow2 (- 50)"
    using roundoff_power_pos [of 5] by (simp only: mult_le_cancel_right_pos)
  with lower show ?thesis
    by (intro abs_leI) linarith+
qed

lemma normalized_double_near:
  assumes a: "magnitude_within 250 a" and b: "magnitude_within 250 b"
    and nonzero: "a \<noteq> 0 \<or> b \<noteq> 0"
  shows "\<exists>n L. normalized sqrt_double \<lparr>Vector.x = Finite a, Vector.y = Finite b\<rparr> = Inr n \<and>
           length_Vector sqrt_double n = Finite L \<and> near 5 L 1"
proof -
  let ?v = "\<lparr>Vector.x = Finite a, Vector.y = Finite b\<rparr>"
  define N where "N = sqrt (a * a + b * b)"
  from length_double_near [OF _ _ a b nonzero] obtain l
    where l: "length_Vector sqrt_double ?v = Finite l" "near 2 l N" "0 < l"
    unfolding N_def by auto
  have sum_pos: "0 < a * a + b * b"
    using nonzero by (simp add: sum_squares_gt_zero_iff)
  then have N_pos: "0 < N"
    by (simp add: N_def)
  have N_square: "N * N = a * a + b * b"
    using sum_pos by (simp add: N_def)
  have "a * a \<le> a * a + b * b" and "b * b \<le> a * a + b * b"
    by simp_all
  then have "sqrt (a * a) \<le> N" and "sqrt (b * b) \<le> N"
    unfolding N_def by (simp_all only: real_sqrt_le_iff)
  then have le_N: "\<bar>a\<bar> \<le> N" "\<bar>b\<bar> \<le> N"
    by simp_all
  have upper: "\<bar>a\<bar> \<le> pow2 250" "\<bar>b\<bar> \<le> pow2 250"
    using a b pow2_nonneg [of 250] by (auto simp only: magnitude_within_def abs_zero)
  have "N \<le> \<bar>a\<bar> + \<bar>b\<bar>"
    using sqrt_sum_squares_le_sum_abs [of a b] by (simp add: N_def power2_eq_square)
  with upper have "N \<le> 2 * pow2 250"
    by linarith
  then have N_upper: "N \<le> pow2 251"
    by (simp only: pow2_double) simp
  have ratio: "r = 0 \<or> pow2 (- 501) \<le> \<bar>r\<bar> / N" if "magnitude_within 250 r" for r
  proof (cases "r = 0")
    case True
    then show ?thesis ..
  next
    case False
    with that have "pow2 (- 250) \<le> \<bar>r\<bar>"
      by (simp only: magnitude_within_def) simp
    moreover have "pow2 (- 501) * N \<le> pow2 (- 501) * pow2 251"
      using N_upper by (intro mult_left_mono) simp_all
    moreover have "pow2 (- 501) * pow2 251 = pow2 (- 250)"
      by (simp only: pow2_add [symmetric]) simp
    ultimately have "pow2 (- 501) * N \<le> \<bar>r\<bar>"
      by linarith
    then have "pow2 (- 501) \<le> \<bar>r\<bar> / N"
      using N_pos by (simp only: pos_le_divide_eq)
    then show ?thesis ..
  qed
  have unit: "\<bar>a\<bar> / N \<le> 1" "\<bar>b\<bar> / N \<le> 1"
    using le_N N_pos by simp_all
  from quotient_rounded [OF l(2) N_pos ratio [OF a] unit(1)] obtain ca
    where ca: "Finite a div Finite l = Finite ca" "near 3 \<bar>ca\<bar> (\<bar>a\<bar> / N)"
      "magnitude_within 502 ca" "a \<noteq> 0 \<longrightarrow> ca \<noteq> 0" .
  from quotient_rounded [OF l(2) N_pos ratio [OF b] unit(2)] obtain cb
    where cb: "Finite b div Finite l = Finite cb" "near 3 \<bar>cb\<bar> (\<bar>b\<bar> / N)"
      "magnitude_within 502 cb" "b \<noteq> 0 \<longrightarrow> cb \<noteq> 0" .
  let ?n = "\<lparr>Vector.x = Finite ca, Vector.y = Finite cb\<rparr>"
  have result: "normalized sqrt_double ?v = Inr ?n"
    using l(1,3) ca(1) cb(1) by (simp add: normalized_Inr zero_double_def)
  have "ca \<noteq> 0 \<or> cb \<noteq> 0"
    using nonzero ca(4) cb(4) by blast
  from length_double_near [OF _ _ ca(3) cb(3) this] obtain L
    where L: "length_Vector sqrt_double ?n = Finite L" "near 2 L (sqrt (ca * ca + cb * cb))"
    by auto
  have "near 6 (\<bar>ca\<bar> * \<bar>ca\<bar>) (\<bar>a\<bar> / N * (\<bar>a\<bar> / N))"
    using ca(2) ca(2) by (rule near_mult_eq) (use N_pos in simp_all)
  moreover have "near 6 (\<bar>cb\<bar> * \<bar>cb\<bar>) (\<bar>b\<bar> / N * (\<bar>b\<bar> / N))"
    using cb(2) cb(2) by (rule near_mult_eq) (use N_pos in simp_all)
  ultimately have sum: "near 6 (\<bar>ca\<bar> * \<bar>ca\<bar> + \<bar>cb\<bar> * \<bar>cb\<bar>)
      (\<bar>a\<bar> / N * (\<bar>a\<bar> / N) + \<bar>b\<bar> / N * (\<bar>b\<bar> / N))"
    by (rule near_add)
  have squares: "\<bar>ca\<bar> * \<bar>ca\<bar> + \<bar>cb\<bar> * \<bar>cb\<bar> = ca * ca + cb * cb"
    by simp
  have "\<bar>a\<bar> / N * (\<bar>a\<bar> / N) + \<bar>b\<bar> / N * (\<bar>b\<bar> / N) = (a * a + b * b) / (N * N)"
    by (simp add: add_divide_distrib)
  also have "\<dots> = 1"
    unfolding N_square using sum_pos by (intro divide_self) linarith
  finally have "near 6 (ca * ca + cb * cb) 1"
    using sum unfolding squares by simp
  then have "near 3 (sqrt (ca * ca + cb * cb)) (sqrt 1)"
    by (rule near_sqrt_eq) simp_all
  then have "near 3 (sqrt (ca * ca + cb * cb)) 1"
    by simp
  with L(2) have "near 5 L 1"
    by (rule near_trans_eq) simp
  with result L(1) show ?thesis
    by blast
qed

text \<open>
  Outside that range a square underflows or overflows. The vector \<open>(1e-200, 0)\<close> is not
  the zero vector, but the square of its \<open>x\<close> is rounded to zero: its length is 0, and
  \<^verbatim>\<open>normalized\<close> returns the zero vector. The square of the \<open>x\<close> of \<open>(1e200, 0)\<close> is
  rounded to infinity: its length is infinite, and each component divided by it is 0.
\<close>

lemma fl_1e_minus_200: "fl (1 / 10 ^ 200) = Finite (6894565328877484 / 2 ^ 717)"
  using fl_eval_round [of "- 665" "1 / 10 ^ 200" 6894565328877484] by simp

lemma fl_1e200: "fl (10 ^ 200) = Finite (5883593420661338 * 2 ^ 612)"
  using fl_eval_round [of 664 "10 ^ 200" 5883593420661338] by simp

lemma normalized_double_underflow:
  "fl (1 / 10 ^ 200) \<noteq> Finite 0"
  "normalized sqrt_double \<lparr>Vector.x = fl (1 / 10 ^ 200), Vector.y = Finite 0\<rparr> =
     Inr \<lparr>Vector.x = Finite 0, Vector.y = Finite 0\<rparr>"
proof -
  define a :: real where "a = 6894565328877484 / 2 ^ 717"
  have x: "fl (1 / 10 ^ 200) = Finite a"
    unfolding a_def by (rule fl_1e_minus_200)
  have "\<bar>a * a\<bar> < pow2 (- 1075)"
    by (simp add: a_def)
  then have square: "fl (a * a) = Finite 0"
    by (rule fl_underflow)
  have "length_Vector sqrt_double \<lparr>Vector.x = Finite a, Vector.y = Finite 0\<rparr> = Finite 0"
    by (simp add: length_Vector_def square)
  then show "normalized sqrt_double \<lparr>Vector.x = fl (1 / 10 ^ 200), Vector.y = Finite 0\<rparr> =
     Inr \<lparr>Vector.x = Finite 0, Vector.y = Finite 0\<rparr>"
    unfolding x by (simp add: normalized_Inr zero_double_def Vector_default_def)
  show "fl (1 / 10 ^ 200) \<noteq> Finite 0"
    unfolding x by (simp add: a_def)
qed

lemma normalized_double_overflow:
  "fl (10 ^ 200) \<noteq> Finite 0"
  "normalized sqrt_double \<lparr>Vector.x = fl (10 ^ 200), Vector.y = Finite 0\<rparr> =
     Inr \<lparr>Vector.x = Finite 0, Vector.y = Finite 0\<rparr>"
proof -
  define a :: real where "a = 5883593420661338 * 2 ^ 612"
  have x: "fl (10 ^ 200) = Finite a"
    unfolding a_def by (rule fl_1e200)
  have "2 ^ 1024 \<le> a * a"
    by (simp add: a_def)
  then have square: "fl (a * a) = PInf"
    by (rule fl_overflow)
  have "length_Vector sqrt_double \<lparr>Vector.x = Finite a, Vector.y = Finite 0\<rparr> = PInf"
    by (simp add: length_Vector_def square)
  then show "normalized sqrt_double \<lparr>Vector.x = fl (10 ^ 200), Vector.y = Finite 0\<rparr> =
     Inr \<lparr>Vector.x = Finite 0, Vector.y = Finite 0\<rparr>"
    unfolding x by (simp add: normalized_Inr zero_double_def)
  show "fl (10 ^ 200) \<noteq> Finite 0"
    unfolding x by (simp add: a_def)
qed

lemma normalized_int_3_4:
  "\<lparr>Vector.x = CInt 3, Vector.y = CInt 4\<rparr> \<noteq> Vector_default"
  "normalized sqrt_int \<lparr>Vector.x = CInt 3, Vector.y = CInt 4\<rparr> =
     Inr \<lparr>Vector.x = CInt 0, Vector.y = CInt 0\<rparr>"
  "length_Vector sqrt_int \<lparr>Vector.x = CInt 0, Vector.y = CInt 0\<rparr> = CInt 0"
proof -
  have "isqrt 25 = 5" by code_simp
  then have "length_Vector sqrt_int \<lparr>Vector.x = CInt 3, Vector.y = CInt 4\<rparr> = CInt 5"
    by (simp add: length_Vector_def cint_simps)
  then show "normalized sqrt_int \<lparr>Vector.x = CInt 3, Vector.y = CInt 4\<rparr> =
     Inr \<lparr>Vector.x = CInt 0, Vector.y = CInt 0\<rparr>"
    by (simp add: normalized_Inr cint_simps)
  show "\<lparr>Vector.x = CInt 3, Vector.y = CInt 4\<rparr> \<noteq> Vector_default"
    by (simp add: Vector_default_def cint_simps)
  show "length_Vector sqrt_int \<lparr>Vector.x = CInt 0, Vector.y = CInt 0\<rparr> = CInt 0"
    by (simp add: length_Vector_def cint_simps)
qed

text \<open>
  With the element type \<^verbatim>\<open>int\<close>, the vector \<open>(3,4)\<close> is not the zero vector, has
  length 5, and both of its components divided by 5 are 0: its normalized vector is
  \<open>(0,0)\<close>, of length 0. With the element type \<^verbatim>\<open>double\<close>, the vectors \<open>(1e-200, 0)\<close>
  and \<open>(1e200, 0)\<close> are not the zero vector, and are normalized to \<open>(0,0)\<close>, of length 0.
\<close>

theorem normalized_not_unit_length:
  "\<lparr>Vector.x = CInt 3, Vector.y = CInt 4\<rparr> \<noteq> Vector_default \<and>
   normalized sqrt_int \<lparr>Vector.x = CInt 3, Vector.y = CInt 4\<rparr> =
     Inr \<lparr>Vector.x = CInt 0, Vector.y = CInt 0\<rparr> \<and>
   length_Vector sqrt_int \<lparr>Vector.x = CInt 0, Vector.y = CInt 0\<rparr> = CInt 0 \<and>
   \<lparr>Vector.x = fl (1 / 10 ^ 200), Vector.y = Finite 0\<rparr> \<noteq> Vector_default \<and>
   normalized sqrt_double \<lparr>Vector.x = fl (1 / 10 ^ 200), Vector.y = Finite 0\<rparr> =
     Inr \<lparr>Vector.x = Finite 0, Vector.y = Finite 0\<rparr> \<and>
   \<lparr>Vector.x = fl (10 ^ 200), Vector.y = Finite 0\<rparr> \<noteq> Vector_default \<and>
   normalized sqrt_double \<lparr>Vector.x = fl (10 ^ 200), Vector.y = Finite 0\<rparr> =
     Inr \<lparr>Vector.x = Finite 0, Vector.y = Finite 0\<rparr> \<and>
   length_Vector sqrt_double \<lparr>Vector.x = Finite 0, Vector.y = Finite 0\<rparr> = Finite 0"
proof -
  have "\<lparr>Vector.x = fl (1 / 10 ^ 200), Vector.y = Finite 0\<rparr> \<noteq> Vector_default"
    using normalized_double_underflow(1) by (simp only: Vector_default_def zero_double_def) simp
  moreover have "\<lparr>Vector.x = fl (10 ^ 200), Vector.y = Finite 0\<rparr> \<noteq> Vector_default"
    using normalized_double_overflow(1) by (simp only: Vector_default_def zero_double_def) simp
  ultimately show ?thesis
    using normalized_int_3_4 normalized_double_underflow(2) normalized_double_overflow(2)
      length_double_zero
    by (simp only: simp_thms)
qed

lemma normalized_zero:
  "normalized sqrt_double Vector_default = Inr Vector_default"
  "normalized sqrt_int Vector_default = Inr Vector_default"
  "normalized sqrt_unsigned Vector_default = Inr Vector_default"
  by (simp_all add: normalized_Inr Vector_default_def length_Vector_def zero_double_def
      cint_simps sqrt_unsigned_def)

text \<open>
  C1. With every element type, the zero vector is normalized to the zero vector. With the
  element type \<^verbatim>\<open>double\<close>, a vector that is not the zero vector and whose components are
  zero or of magnitude between \<open>2\<^sup>-\<^sup>2\<^sup>5\<^sup>0\<close> and \<open>2\<^sup>2\<^sup>5\<^sup>0\<close> is normalized to a vector whose
  \<^verbatim>\<open>length\<close> differs from 1 by at most \<open>2\<^sup>-\<^sup>5\<^sup>0\<close>.
\<close>

theorem normalized_unit_length:
  "normalized sqrt_double Vector_default = Inr Vector_default \<and>
   normalized sqrt_int Vector_default = Inr Vector_default \<and>
   normalized sqrt_unsigned Vector_default = Inr Vector_default \<and>
   (magnitude_within 250 a \<and> magnitude_within 250 b \<and> (a \<noteq> 0 \<or> b \<noteq> 0) \<longrightarrow>
      (\<exists>n L. normalized sqrt_double \<lparr>Vector.x = Finite a, Vector.y = Finite b\<rparr> = Inr n \<and>
         length_Vector sqrt_double n = Finite L \<and> \<bar>L - 1\<bar> \<le> pow2 (- 50)))"
proof -
  have "\<exists>n L. normalized sqrt_double \<lparr>Vector.x = Finite a, Vector.y = Finite b\<rparr> = Inr n \<and>
      length_Vector sqrt_double n = Finite L \<and> \<bar>L - 1\<bar> \<le> pow2 (- 50)"
    if "magnitude_within 250 a" and "magnitude_within 250 b" and "a \<noteq> 0 \<or> b \<noteq> 0"
    using normalized_double_near [OF that] near_1_bound by blast
  then show ?thesis
    using normalized_zero by blast
qed

theorem normalized_unit_length_witness:
  "magnitude_within 250 3 \<and> magnitude_within 250 4 \<and>
   (\<exists>n L. normalized sqrt_double \<lparr>Vector.x = Finite 3, Vector.y = Finite 4\<rparr> = Inr n \<and>
      length_Vector sqrt_double n = Finite L \<and> \<bar>L - 1\<bar> \<le> pow2 (- 50))"
proof -
  have "magnitude_within 250 3" and "magnitude_within 250 4"
    by (simp_all add: magnitude_within_def)
  then show ?thesis
    using normalized_unit_length [where a = 3 and b = 4] by simp
qed

section \<open>Multiplying and dividing by a scalar\<close>








text \<open>
  With the element type \<^verbatim>\<open>double\<close>, the product of \<open>(1e200, 0)\<close> and \<open>1e200\<close> overflows:
  it is \<open>(\<infinity>, 0)\<close>, and so is its quotient by \<open>1e200\<close>.
\<close>

lemma times_divide_double_overflow:
  "divide_Vector (times_Vector \<lparr>Vector.x = fl (10 ^ 200), Vector.y = Finite 0\<rparr> (fl (10 ^ 200)))
     (fl (10 ^ 200)) = Inr \<lparr>Vector.x = PInf, Vector.y = Finite 0\<rparr>"
proof -
  define a :: real where "a = 5883593420661338 * 2 ^ 612"
  have x: "fl (10 ^ 200) = Finite a"
    unfolding a_def by (rule fl_1e200)
  have "2 ^ 1024 \<le> a * a"
    by (simp add: a_def)
  then have square: "fl (a * a) = PInf"
    by (rule fl_overflow)
  have "0 < a"
    by (simp add: a_def)
  then show ?thesis
    unfolding x by (simp add: divide_Vector_def times_Vector_def square zero_double_def)
qed




section \<open>Compound assignment and the binary operators\<close>

text \<open>
  After \<open>a += b\<close> and \<open>a -= b\<close> the object \<open>a\<close> holds \<open>a + b\<close> and \<open>a - b\<close> of the
  old values, also when \<open>b\<close> is \<open>a\<close> itself, and the operator returns \<open>a\<close>. The
  same holds for \<open>a *= s\<close> and \<open>a /= s\<close> when the scalar \<open>s\<close> is not the member
  \<open>a.x\<close>.
\<close>

lemma plus_assign_Vector_agrees:
  "fst (plus_assign_Vector this rhs m) = this \<and>
   load_Vector (snd (plus_assign_Vector this rhs m)) this =
     plus_Vector (load_Vector m this) (load_Vector m rhs)"
  by (simp add: plus_assign_Vector_def load_Vector_def plus_Vector_def Let_def)

lemma minus_assign_Vector_agrees:
  "fst (minus_assign_Vector this rhs m) = this \<and>
   load_Vector (snd (minus_assign_Vector this rhs m)) this =
     minus_Vector (load_Vector m this) (load_Vector m rhs)"
  by (simp add: minus_assign_Vector_def load_Vector_def minus_Vector_def Let_def)

lemma plus_assign_Point_agrees:
  "fst (plus_assign_Point this rhs m) = this \<and>
   load_Point (snd (plus_assign_Point this rhs m)) this =
     plus_Point (load_Point m this) (load_Vector m rhs)"
  by (simp add: plus_assign_Point_def load_Point_def load_Vector_def plus_Point_def Let_def)

lemma minus_assign_Point_agrees:
  "fst (minus_assign_Point this rhs m) = this \<and>
   load_Point (snd (minus_assign_Point this rhs m)) this =
     minus_Point (load_Point m this) (load_Vector m rhs)"
  by (simp add: minus_assign_Point_def load_Point_def load_Vector_def minus_Point_def Let_def)

lemma times_assign_Vector_agrees:
  assumes "scalar \<noteq> Vector_x this"
  shows "fst (times_assign_Vector this scalar m) = this \<and>
         load_Vector (snd (times_assign_Vector this scalar m)) this =
           times_Vector (load_Vector m this) (m scalar)"
  using assms by (simp add: times_assign_Vector_def load_Vector_def times_Vector_def Let_def)

lemma divide_assign_Vector_agrees:
  assumes "scalar \<noteq> Vector_x this"
  shows "map_sum id (\<lambda>(r, m'). (r, load_Vector m' r)) (divide_assign_Vector this scalar m) =
         map_sum id (\<lambda>v. (this, v)) (divide_Vector (load_Vector m this) (m scalar))"
  using assms by (simp add: divide_assign_Vector_def load_Vector_def divide_Vector_def Let_def)

text \<open>
  C10. The agreement of a compound assignment with its binary operator on the old
  value of the left operand fails for \<^verbatim>\<open>operator*=\<close> and \<^verbatim>\<open>operator/=\<close> when the
  scalar is the left operand's own \<open>x\<close>: the scalar is a reference, and it is read
  again after \<open>x\<close> has been assigned. With \<open>v = (2,3)\<close>, \<open>v *= v.x\<close> leaves
  \<open>(4,12)\<close> where \<open>v * v.x\<close> is \<open>(4,6)\<close>; with \<open>v = (2,4)\<close>, \<open>v /= v.x\<close> leaves
  \<open>(1,4)\<close> where \<open>v / v.x\<close> is \<open>(1,2)\<close>.
\<close>

theorem times_assign_aliased_scalar:
  "load_Vector (snd (times_assign_Vector 0 (Vector_x 0)
      ((\<lambda>r. CInt 0)(Vector_x 0 := CInt 2, Vector_y 0 := CInt 3)))) 0 =
     \<lparr>Vector.x = CInt 4, Vector.y = CInt 12\<rparr> \<and>
   times_Vector (load_Vector ((\<lambda>r. CInt 0)(Vector_x 0 := CInt 2, Vector_y 0 := CInt 3)) 0)
      (((\<lambda>r. CInt 0)(Vector_x 0 := CInt 2, Vector_y 0 := CInt 3)) (Vector_x 0)) =
     \<lparr>Vector.x = CInt 4, Vector.y = CInt 6\<rparr> \<and>
   map_sum id (\<lambda>(r, m'). load_Vector m' r) (divide_assign_Vector 0 (Vector_x 0)
      ((\<lambda>r. CInt 0)(Vector_x 0 := CInt 2, Vector_y 0 := CInt 4))) =
     Inr \<lparr>Vector.x = CInt 1, Vector.y = CInt 4\<rparr> \<and>
   divide_Vector (load_Vector ((\<lambda>r. CInt 0)(Vector_x 0 := CInt 2, Vector_y 0 := CInt 4)) 0)
      (((\<lambda>r. CInt 0)(Vector_x 0 := CInt 2, Vector_y 0 := CInt 4)) (Vector_x 0)) =
     Inr \<lparr>Vector.x = CInt 1, Vector.y = CInt 2\<rparr>"
  by (simp add: times_assign_Vector_def divide_assign_Vector_def load_Vector_def
      times_Vector_def divide_Vector_def Let_def cint_simps)


end
